theory Spec2Isabelle
  imports Main
begin

section \<open>JavaScript values, errors and strings\<close>

text \<open>
  The demo pages are React components. Their view state lives in \<open>useState\<close> cells, their
  narration is scheduled with \<open>setTimeout\<close>, and the network call is awaited inside an
  \<open>async\<close> function. The model keeps the three apart: a view record per page, a timer
  queue with a millisecond clock, and one HOL function for each stretch of an
  \<open>async\<close> function between two \<open>await\<close>s.
\<close>

datatype jsval =
    JUndefined
  | JNull
  | JBool bool
  | JNum int
  | JStr string
  | JArr "jsval list"
  | JObj "(string \<times> jsval) list"

record js_error =
  err_name :: string
  err_message :: string

definition new_Error :: "string \<Rightarrow> js_error" where
  "new_Error m = \<lparr>err_name = ''Error'', err_message = m\<rparr>"

definition TypeError :: "string \<Rightarrow> js_error" where
  "TypeError m = \<lparr>err_name = ''TypeError'', err_message = m\<rparr>"

definition SyntaxError :: "string \<Rightarrow> js_error" where
  "SyntaxError m = \<lparr>err_name = ''SyntaxError'', err_message = m\<rparr>"

text \<open>\<open>x[i]\<close>: reading an index of \<open>null\<close> or \<open>undefined\<close> throws, an index out of range
  of an array or a string is \<open>undefined\<close>, an object is looked up under the key's decimal
  text, and numbers and booleans have no indexed properties.\<close>

definition digit_char :: "nat \<Rightarrow> char" where
  "digit_char d = ''0123456789'' ! d"

fun String_of_nat :: "nat \<Rightarrow> string" where
  "String_of_nat n =
     (if n < 10 then [digit_char n] else String_of_nat (n div 10) @ [digit_char (n mod 10)])"

declare String_of_nat.simps [simp del]

definition get_index :: "jsval \<Rightarrow> nat \<Rightarrow> js_error + jsval" where
  "get_index x i =
     (case x of
        JUndefined \<Rightarrow> Inl (TypeError ''Cannot read properties of undefined'')
      | JNull \<Rightarrow> Inl (TypeError ''Cannot read properties of null'')
      | JArr xs \<Rightarrow> Inr (if i < length xs then xs ! i else JUndefined)
      | JStr s \<Rightarrow> Inr (if i < length s then JStr [s ! i] else JUndefined)
      | JObj kvs \<Rightarrow> Inr (case map_of kvs (String_of_nat i) of None \<Rightarrow> JUndefined | Some v \<Rightarrow> v)
      | _ \<Rightarrow> Inr JUndefined)"

text \<open>\<open>x.k\<close> for a key that is no built-in property (the pages read \<open>url\<close>).\<close>

definition get_prop :: "jsval \<Rightarrow> string \<Rightarrow> js_error + jsval" where
  "get_prop x k =
     (case x of
        JUndefined \<Rightarrow> Inl (TypeError ''Cannot read properties of undefined'')
      | JNull \<Rightarrow> Inl (TypeError ''Cannot read properties of null'')
      | JObj kvs \<Rightarrow> Inr (case map_of kvs k of None \<Rightarrow> JUndefined | Some v \<Rightarrow> v)
      | _ \<Rightarrow> Inr JUndefined)"

text \<open>\<open>data[0].url\<close>, as every page reads the image address.\<close>

definition first_url :: "jsval \<Rightarrow> js_error + jsval" where
  "first_url data =
     (case get_index data 0 of Inl e \<Rightarrow> Inl e | Inr d0 \<Rightarrow> get_prop d0 ''url'')"

definition startsWith :: "string \<Rightarrow> string \<Rightarrow> bool" where
  "startsWith s p = (take (length p) s = p)"

text \<open>\<open>s.includes(p)\<close>.\<close>

fun includes_str :: "string \<Rightarrow> string \<Rightarrow> bool" where
  "includes_str [] p = (p = [])"
| "includes_str (c # cs) p = (startsWith (c # cs) p \<or> includes_str cs p)"

section \<open>The network boundary\<close>

record response =
  resp_status :: nat

text \<open>\<open>response.ok\<close> is true exactly for the statuses 200 to 299.\<close>

definition ok :: "response \<Rightarrow> bool" where
  "ok r = (200 \<le> resp_status r \<and> resp_status r \<le> 299)"

text \<open>What the network decides for one run: when \<open>fetch\<close> settles and how, and when the
  body read (\<open>response.json()\<close> or \<open>response.text()\<close>) settles and how. \<open>Inl\<close> is a
  rejected promise.\<close>

record network =
  t_fetch :: nat
  fetch_outcome :: "js_error + response"
  t_body :: nat
  body_outcome :: "js_error + jsval"

section \<open>The event loop: clock and timers\<close>

record 'cb timer =
  tid :: nat
  due :: nat
  callback :: 'cb

record ('v, 'cb) world =
  now :: nat
  next_id :: nat
  timers :: "'cb timer list"
  uncaught :: "js_error list"
  view :: 'v

text \<open>\<open>setTimeout(cb, delay)\<close> queues the callback and returns its handle.\<close>

definition setTimeout :: "'cb \<Rightarrow> nat \<Rightarrow> ('v, 'cb) world \<Rightarrow> nat \<times> ('v, 'cb) world" where
  "setTimeout cb delay w =
     (next_id w,
      w\<lparr>timers := timers w @ [\<lparr>tid = next_id w, due = now w + delay, callback = cb\<rparr>],
        next_id := Suc (next_id w)\<rparr>)"

text \<open>The call whose handle is thrown away, as the narration pages make it.\<close>

definition setTimeout_nohandle :: "'cb \<Rightarrow> nat \<Rightarrow> ('v, 'cb) world \<Rightarrow> ('v, 'cb) world" where
  "setTimeout_nohandle cb delay w = snd (setTimeout cb delay w)"

definition clearTimeout :: "nat \<Rightarrow> ('v, 'cb) world \<Rightarrow> ('v, 'cb) world" where
  "clearTimeout h w = w\<lparr>timers := filter (\<lambda>x. tid x \<noteq> h) (timers w)\<rparr>"

text \<open>One callback runs at its due time (or at once when that is past). A callback of
  these pages only writes view state, so a page gives its callbacks as a function from the
  callback, the clock and the view to the view it leaves and the exception it throws, if
  any. A thrown exception has no handler above it: it reaches the global error handler,
  and the state writes made before the throw stay.\<close>

definition run_timer ::
  "('cb \<Rightarrow> nat \<Rightarrow> 'v \<Rightarrow> 'v \<times> js_error option) \<Rightarrow> 'cb timer \<Rightarrow> ('v, 'cb) world \<Rightarrow> ('v, 'cb) world" where
  "run_timer fire x w =
     (let t = max (now w) (due x) in
      case fire (callback x) t (view w) of
        (v, None) \<Rightarrow> w\<lparr>now := t, view := v\<rparr>
      | (v, Some e) \<Rightarrow> w\<lparr>now := t, uncaught := uncaught w @ [e], view := v\<rparr>)"

text \<open>Every timer due by \<open>t\<close> fires, earliest first and in scheduling order among equal
  due times.\<close>

definition fire_due ::
  "('cb \<Rightarrow> nat \<Rightarrow> 'v \<Rightarrow> 'v \<times> js_error option) \<Rightarrow> nat \<Rightarrow> ('v, 'cb) world \<Rightarrow> ('v, 'cb) world" where
  "fire_due fire t w =
     fold (run_timer fire) (sort_key due (filter (\<lambda>x. due x \<le> t) (timers w)))
       (w\<lparr>timers := filter (\<lambda>x. t < due x) (timers w)\<rparr>)"

text \<open>Letting the clock reach \<open>t\<close>.\<close>

definition advance ::
  "('cb \<Rightarrow> nat \<Rightarrow> 'v \<Rightarrow> 'v \<times> js_error option) \<Rightarrow> nat \<Rightarrow> ('v, 'cb) world \<Rightarrow> ('v, 'cb) world" where
  "advance fire t w = (let w' = fire_due fire t w in w'\<lparr>now := max (now w') t\<rparr>)"

text \<open>Letting every pending timer fire.\<close>

definition settle ::
  "('cb \<Rightarrow> nat \<Rightarrow> 'v \<Rightarrow> 'v \<times> js_error option) \<Rightarrow> ('v, 'cb) world \<Rightarrow> ('v, 'cb) world" where
  "settle fire w = advance fire (fold max (map due (timers w)) (now w)) w"

definition upd_view :: "('v \<Rightarrow> 'v) \<Rightarrow> ('v, 'cb) world \<Rightarrow> ('v, 'cb) world" where
  "upd_view f w = w\<lparr>view := f (view w)\<rparr>"

text \<open>A page just mounted.\<close>

definition fresh :: "'v \<Rightarrow> ('v, 'cb) world" where
  "fresh v = \<lparr>now = 0, next_id = 1, timers = [], uncaught = [], view = v\<rparr>"

section \<open>View state shared by the pages\<close>

datatype status = Idle | Loading | Success | Error

datatype log_type = Log_info | Log_success | Log_warning | Log_error

record log_entry =
  msg :: string
  ltype :: log_type
  timestamp :: nat

definition entry :: "string \<Rightarrow> log_type \<Rightarrow> nat \<Rightarrow> log_entry" where
  "entry m ty t = \<lparr>msg = m, ltype = ty, timestamp = t\<rparr>"

section \<open>FetchBasics.jsx\<close>

record fb_view =
  fb_step :: nat
  fb_status :: status
  fb_imageUrl :: jsval
  fb_logs :: "log_entry list"
  fb_responseData :: jsval

text \<open>The narration callbacks of \<open>runFetch\<close>, in the order of the source. The last one
  closes over the parsed body.\<close>

datatype fb_cb = FB_step1 | FB_step2 | FB_step3 | FB_finish jsval

type_synonym fb_world = "(fb_view, fb_cb) world"

definition fb_initial :: fb_view where
  "fb_initial = \<lparr>fb_step = 0, fb_status = Idle, fb_imageUrl = JNull, fb_logs = [],
     fb_responseData = JNull\<rparr>"

definition fb_addLog :: "string \<Rightarrow> log_type \<Rightarrow> nat \<Rightarrow> fb_view \<Rightarrow> fb_view" where
  "fb_addLog m ty t v = v\<lparr>fb_logs := fb_logs v @ [entry m ty t]\<rparr>"

definition fb_reset :: "fb_view \<Rightarrow> fb_view" where
  "fb_reset v = v\<lparr>fb_step := 0, fb_status := Idle, fb_imageUrl := JNull, fb_logs := [],
     fb_responseData := JNull\<rparr>"

fun fb_fire :: "fb_cb \<Rightarrow> nat \<Rightarrow> fb_view \<Rightarrow> fb_view \<times> js_error option" where
  "fb_fire FB_step1 t v =
     (fb_addLog ''Browser sending HTTP request to API...'' Log_info t (v\<lparr>fb_step := 1\<rparr>), None)"
| "fb_fire FB_step2 t v =
     (fb_addLog ''API processing request...'' Log_info t (v\<lparr>fb_step := 2\<rparr>), None)"
| "fb_fire FB_step3 t v =
     (fb_addLog ''Updating UI with fetched data...'' Log_info t (v\<lparr>fb_step := 3\<rparr>), None)"
| "fb_fire (FB_finish data) t v =
     (case first_url data of
        Inl e \<Rightarrow> (v, Some e)
      | Inr u \<Rightarrow> (fb_addLog ''Image rendered successfully.'' Log_success t
                    (v\<lparr>fb_imageUrl := u, fb_status := Success\<rparr>), None))"

text \<open>The \<open>catch\<close> block of \<open>runFetch\<close>.\<close>

definition runFetch_catch :: "js_error \<Rightarrow> fb_world \<Rightarrow> fb_world" where
  "runFetch_catch e w =
     upd_view (\<lambda>v. fb_addLog (''Error: '' @ err_message e) Log_error (now w)
                     (v\<lparr>fb_status := Error\<rparr>)) w"

text \<open>\<open>runFetch\<close> up to \<open>await fetch(...)\<close>.\<close>

definition runFetch :: "fb_world \<Rightarrow> fb_world" where
  "runFetch w =
     setTimeout_nohandle FB_step2 1400
       (setTimeout_nohandle FB_step1 500
          (upd_view (\<lambda>v. fb_addLog ''Starting fetch request...'' Log_info (now w)
                            ((fb_reset v)\<lparr>fb_status := Loading\<rparr>)) w))"

text \<open>From the settling of \<open>fetch\<close> to \<open>await response.json()\<close>. A rejected \<open>fetch\<close> and a
  response that is not \<open>ok\<close> both end in the \<open>catch\<close> block.\<close>

definition runFetch_response :: "js_error + response \<Rightarrow> fb_world \<Rightarrow> fb_world" where
  "runFetch_response outcome w =
     (case outcome of
        Inl e \<Rightarrow> runFetch_catch e w
      | Inr r \<Rightarrow>
          (let w1 = upd_view (fb_addLog (''Response received. Status: '' @ String_of_nat (resp_status r))
                                Log_success (now w)) w
           in if \<not> ok r
              then runFetch_catch (new_Error (''HTTP Error. Status: '' @ String_of_nat (resp_status r))) w1
              else w1))"

text \<open>From the settling of \<open>response.json()\<close> to the end of the \<open>try\<close> block.\<close>

definition runFetch_json :: "js_error + jsval \<Rightarrow> fb_world \<Rightarrow> fb_world" where
  "runFetch_json outcome w =
     (case outcome of
        Inl e \<Rightarrow> runFetch_catch e w
      | Inr data \<Rightarrow>
          setTimeout_nohandle (FB_finish data) 3200
            (setTimeout_nohandle FB_step3 2400
               (upd_view (\<lambda>v. fb_addLog ''JSON parsed successfully.'' Log_success (now w)
                                 (v\<lparr>fb_responseData := data\<rparr>)) w)))"

text \<open>The buttons. The run button carries \<open>disabled={status === "loading"}\<close>, and a
  disabled button delivers no click.\<close>

definition fb_click_run :: "fb_world \<Rightarrow> fb_world" where
  "fb_click_run w = (if fb_status (view w) = Loading then w else runFetch w)"

definition fb_click_reset :: "fb_world \<Rightarrow> fb_world" where
  "fb_click_reset w = upd_view fb_reset w"

text \<open>One whole run against a given network: the click, the clock reaching the moment
  \<open>fetch\<close> settles, the continuation, and, when the response is \<open>ok\<close>, the same for the body.
  The timers still pending afterwards are left to \<open>advance\<close> and \<open>settle\<close>.\<close>

definition fb_run :: "network \<Rightarrow> fb_world \<Rightarrow> fb_world" where
  "fb_run net w =
     (let w1 = runFetch_response (fetch_outcome net) (advance fb_fire (t_fetch net) (fb_click_run w))
      in case fetch_outcome net of
           Inl e \<Rightarrow> w1
         | Inr r \<Rightarrow> if ok r then runFetch_json (body_outcome net) (advance fb_fire (t_body net) w1)
                    else w1)"

section \<open>ErrorHandling.jsx\<close>

record error_details =
  ed_name :: string
  ed_message :: string
  ed_type :: string

record eh_view =
  eh_step :: nat
  eh_mode :: string
  eh_status :: status
  eh_message :: string
  eh_logs :: "log_entry list"
  eh_errorDetails :: "error_details option"
  eh_responseStatus :: "nat option"

definition getUserMessage :: "js_error \<Rightarrow> string \<Rightarrow> string" where
  "getUserMessage error mode =
     (let m = err_message error in
      if mode = ''network'' \<or> includes_str m ''Failed to fetch''
      then ''Cannot connect to the server. Please check your internet connection.''
      else if mode = ''http'' \<or> startsWith m ''HTTP ''
      then ''The server returned an error response. Please try again later.''
      else if mode = ''parsing''
      then ''The server sent data in an unexpected format. Please contact support.''
      else ''Something went wrong. Please try again.'')"

definition getErrorType :: "js_error \<Rightarrow> string \<Rightarrow> string" where
  "getErrorType error mode =
     (if mode = ''network'' then ''Network Error''
      else if mode = ''http'' then ''HTTP Error''
      else if mode = ''parsing'' then ''Parsing Error''
      else ''Unknown Error'')"

text \<open>\<open>JSON.parse\<close>, as far as the page needs it: a text whose first character after
  white space cannot begin a JSON value is rejected with a \<open>SyntaxError\<close>, and so is an
  empty text. For other texts the model does not decide (\<open>None\<close>); the page passes one
  literal only.\<close>

definition JSON_parse_rejects :: "string \<Rightarrow> js_error option" where
  "JSON_parse_rejects s =
     (case dropWhile (\<lambda>c. c \<in> set [CHR '' '', CHR 0x09, CHR 0x0A, CHR 0x0D]) s of
        [] \<Rightarrow> Some (SyntaxError ''Unexpected end of JSON input'')
      | c # cs \<Rightarrow>
          if c \<in> set (''{[-0123456789tfn'' @ [CHR 0x22]) then None
          else Some (SyntaxError (''Unexpected token '' @ [c] @ '' in JSON'')))"

text \<open>The narration callbacks of \<open>runRequest\<close>. The two of the \<open>catch\<close> block close over
  the caught error, the last one also over the \<open>mode\<close> of the render that made the
  handler.\<close>

datatype eh_cb =
    EH_step1 | EH_step2 | EH_step3 | EH_success | EH_caught js_error | EH_user js_error string

type_synonym eh_world = "(eh_view, eh_cb) world"

definition eh_initial :: eh_view where
  "eh_initial = \<lparr>eh_step = 0, eh_mode = ''success'', eh_status = Idle, eh_message = [],
     eh_logs = [], eh_errorDetails = None, eh_responseStatus = None\<rparr>"

definition eh_addLog :: "string \<Rightarrow> log_type \<Rightarrow> nat \<Rightarrow> eh_view \<Rightarrow> eh_view" where
  "eh_addLog m ty t v = v\<lparr>eh_logs := eh_logs v @ [entry m ty t]\<rparr>"

definition eh_reset :: "eh_view \<Rightarrow> eh_view" where
  "eh_reset v = v\<lparr>eh_step := 0, eh_status := Idle, eh_message := [], eh_logs := [],
     eh_errorDetails := None, eh_responseStatus := None\<rparr>"

fun eh_fire :: "eh_cb \<Rightarrow> nat \<Rightarrow> eh_view \<Rightarrow> eh_view \<times> js_error option" where
  "eh_fire EH_step1 t v =
     (eh_addLog ''Browser sending fetch request...'' Log_info t (v\<lparr>eh_step := 1\<rparr>), None)"
| "eh_fire EH_step2 t v =
     (eh_addLog ''Waiting for server response...'' Log_info t (v\<lparr>eh_step := 2\<rparr>), None)"
| "eh_fire EH_step3 t v = (v\<lparr>eh_step := 3\<rparr>, None)"
| "eh_fire EH_success t v =
     (eh_addLog ''Request completed successfully.'' Log_success t
        (v\<lparr>eh_step := 4, eh_status := Success,
           eh_message := ''Everything went well. Data loaded successfully.''\<rparr>), None)"
| "eh_fire (EH_caught err) t v =
     (eh_addLog (''Error caught: '' @ err_name err @ '' - '' @ err_message err) Log_error t
        (v\<lparr>eh_step := 3\<rparr>), None)"
| "eh_fire (EH_user err mode) t v =
     (let userMsg = getUserMessage err mode in
      (eh_addLog (''User message: '' @ userMsg) Log_info t
         (v\<lparr>eh_step := 4, eh_status := Error, eh_message := userMsg\<rparr>), None))"

text \<open>The \<open>catch\<close> block of \<open>runRequest\<close>; \<open>mode\<close> is the state variable the function
  closes over, not its argument.\<close>

definition runRequest_catch :: "string \<Rightarrow> js_error \<Rightarrow> eh_world \<Rightarrow> eh_world" where
  "runRequest_catch mode err w =
     setTimeout_nohandle (EH_user err mode) 2600
       (setTimeout_nohandle (EH_caught err) 1800
          (upd_view (\<lambda>v. v\<lparr>eh_errorDetails :=
                             Some \<lparr>ed_name = err_name err, ed_message = err_message err,
                                   ed_type = getErrorType err mode\<rparr>\<rparr>) w))"

text \<open>The address \<open>runRequest\<close> fetches.\<close>

definition eh_url :: "string \<Rightarrow> string" where
  "eh_url selectedMode =
     (if selectedMode = ''network'' then ''https://this-domain-will-not-resolve.example.test''
      else if selectedMode = ''http'' then ''https://api.thecatapi.com/v1/does-not-exist''
      else ''https://api.thecatapi.com/v1/images/search'')"

text \<open>\<open>runRequest(selectedMode)\<close> up to \<open>await fetch(url)\<close>.\<close>

definition runRequest :: "string \<Rightarrow> string \<Rightarrow> eh_world \<Rightarrow> eh_world" where
  "runRequest mode selectedMode w =
     (let w1 = upd_view (\<lambda>v. eh_addLog (''Starting '' @ selectedMode @ '' scenario...'') Log_info (now w)
                               ((eh_reset v)\<lparr>eh_mode := selectedMode, eh_status := Loading\<rparr>)) w;
          w2 = setTimeout_nohandle EH_step1 400 w1;
          w3 = setTimeout_nohandle EH_step2 1000 w2;
          w4 = (if selectedMode = ''http''
                then upd_view (eh_addLog ''Using invalid endpoint to trigger HTTP error'' Log_warning (now w)) w3
                else w3)
      in if selectedMode = ''network''
         then upd_view (eh_addLog ''Using unreachable domain to trigger network error'' Log_warning (now w)) w4
         else w4)"

text \<open>From the settling of \<open>fetch\<close> to the \<open>await\<close> of the body.\<close>

definition runRequest_response ::
  "string \<Rightarrow> string \<Rightarrow> js_error + response \<Rightarrow> eh_world \<Rightarrow> eh_world" where
  "runRequest_response mode selectedMode outcome w =
     (case outcome of
        Inl e \<Rightarrow> runRequest_catch mode e w
      | Inr r \<Rightarrow>
          (let w1 = upd_view (\<lambda>v. eh_addLog (''Response received - Status: '' @ String_of_nat (resp_status r))
                                    (if ok r then Log_success else Log_warning) (now w)
                                    (v\<lparr>eh_responseStatus := Some (resp_status r)\<rparr>)) w
           in if \<not> ok r
              then runRequest_catch mode (new_Error (''HTTP '' @ String_of_nat (resp_status r)))
                     (upd_view (eh_addLog (''HTTP Error detected: '' @ String_of_nat (resp_status r))
                                  Log_error (now w)) w1)
              else (let w2 = setTimeout_nohandle EH_step3 1800 w1
                    in if selectedMode = ''parsing''
                       then upd_view (eh_addLog ''Attempting to parse response...'' Log_info (now w)) w2
                       else upd_view (eh_addLog ''Parsing JSON response...'' Log_info (now w)) w2)))"

text \<open>From the settling of the body read (\<open>response.text()\<close> in the parsing scenario,
  \<open>response.json()\<close> otherwise) to the end of the \<open>try\<close> block.\<close>

definition runRequest_body ::
  "string \<Rightarrow> string \<Rightarrow> js_error + jsval \<Rightarrow> eh_world \<Rightarrow> eh_world" where
  "runRequest_body mode selectedMode outcome w =
     (case outcome of
        Inl e \<Rightarrow> runRequest_catch mode e w
      | Inr b \<Rightarrow>
          if selectedMode = ''parsing''
          then (let w1 = upd_view (eh_addLog ''Forcing invalid JSON parse...'' Log_warning (now w)) w
                in case JSON_parse_rejects ''invalid json content'' of
                     Some e \<Rightarrow> runRequest_catch mode e w1
                   | None \<Rightarrow> setTimeout_nohandle EH_success 2400 w1)
          else setTimeout_nohandle EH_success 2400 w)"

text \<open>The buttons: a scenario button stores the scenario, the run button calls
  \<open>runRequest(mode)\<close> with the \<open>mode\<close> of the current render and is disabled while loading.\<close>

definition eh_click_scenario :: "string \<Rightarrow> eh_world \<Rightarrow> eh_world" where
  "eh_click_scenario m w = upd_view (\<lambda>v. v\<lparr>eh_mode := m\<rparr>) w"

definition eh_click_run :: "eh_world \<Rightarrow> eh_world" where
  "eh_click_run w =
     (if eh_status (view w) = Loading then w
      else runRequest (eh_mode (view w)) (eh_mode (view w)) w)"

definition eh_click_reset :: "eh_world \<Rightarrow> eh_world" where
  "eh_click_reset w = upd_view eh_reset w"

definition eh_run :: "network \<Rightarrow> eh_world \<Rightarrow> eh_world" where
  "eh_run net w =
     (let m = eh_mode (view w);
          w1 = runRequest_response m m (fetch_outcome net)
                 (advance eh_fire (t_fetch net) (eh_click_run w))
      in case fetch_outcome net of
           Inl e \<Rightarrow> w1
         | Inr r \<Rightarrow> if ok r then runRequest_body m m (body_outcome net) (advance eh_fire (t_body net) w1)
                    else w1)"

section \<open>PromisesAsync.jsx\<close>

record pa_view =
  pa_step :: nat
  pa_mode :: string
  pa_status :: status
  pa_imageUrl :: jsval
  pa_logs :: "log_entry list"
  pa_executionTime :: "nat option"

text \<open>The narration callbacks of \<open>runFlow\<close>. The third closes over \<open>selectedMode\<close>, the
  last over the parsed body and \<open>startTime\<close>.\<close>

datatype pa_cb = PA_step1 | PA_step2 | PA_step3 string | PA_finish jsval nat

type_synonym pa_world = "(pa_view, pa_cb) world"

definition pa_initial :: pa_view where
  "pa_initial = \<lparr>pa_step = 0, pa_mode = ''await'', pa_status = Idle, pa_imageUrl = JNull,
     pa_logs = [], pa_executionTime = None\<rparr>"

definition pa_addLog :: "string \<Rightarrow> log_type \<Rightarrow> nat \<Rightarrow> pa_view \<Rightarrow> pa_view" where
  "pa_addLog m ty t v = v\<lparr>pa_logs := pa_logs v @ [entry m ty t]\<rparr>"

definition pa_reset :: "pa_view \<Rightarrow> pa_view" where
  "pa_reset v = v\<lparr>pa_step := 0, pa_status := Idle, pa_imageUrl := JNull, pa_logs := [],
     pa_executionTime := None\<rparr>"

fun pa_fire :: "pa_cb \<Rightarrow> nat \<Rightarrow> pa_view \<Rightarrow> pa_view \<times> js_error option" where
  "pa_fire PA_step1 t v =
     (pa_addLog ''Browser initiating fetch request'' Log_info t (v\<lparr>pa_step := 1\<rparr>), None)"
| "pa_fire PA_step2 t v =
     (pa_addLog ''Waiting for API response...'' Log_info t (v\<lparr>pa_step := 2\<rparr>), None)"
| "pa_fire (PA_step3 selectedMode) t v =
     (pa_addLog (if selectedMode = ''then'' then ''Executing .then() chain callbacks''
                 else ''Executing await statement for JSON parsing'') Log_info t
        (v\<lparr>pa_step := 3\<rparr>), None)"
| "pa_fire (PA_finish data startTime) t v =
     (case first_url data of
        Inl e \<Rightarrow> (v\<lparr>pa_step := 4\<rparr>, Some e)
      | Inr u \<Rightarrow>
          (pa_addLog (''Total execution time: '' @ String_of_nat (t - startTime) @ ''ms'') Log_info t
             (pa_addLog ''UI updated with image'' Log_success t
                (v\<lparr>pa_step := 4, pa_imageUrl := u, pa_status := Success,
                   pa_executionTime := Some (t - startTime)\<rparr>)), None))"

definition runFlow_catch :: "js_error \<Rightarrow> pa_world \<Rightarrow> pa_world" where
  "runFlow_catch e w =
     upd_view (\<lambda>v. pa_addLog (''Error caught: '' @ err_message e) Log_error (now w)
                     (v\<lparr>pa_status := Error\<rparr>)) w"

text \<open>\<open>runFlow(selectedMode)\<close> up to \<open>await fetch(...)\<close>.\<close>

definition runFlow :: "string \<Rightarrow> pa_world \<Rightarrow> pa_world" where
  "runFlow selectedMode w =
     setTimeout_nohandle PA_step2 1200
       (setTimeout_nohandle PA_step1 500
          (upd_view (\<lambda>v. pa_addLog (''Starting '' @ (if selectedMode = ''then'' then ''.then() chain''
                                                       else ''async/await'') @ '' pattern...'')
                            Log_info (now w)
                            ((pa_reset v)\<lparr>pa_mode := selectedMode, pa_status := Loading\<rparr>)) w))"

text \<open>From the settling of \<open>fetch\<close> to \<open>await response.json()\<close>.\<close>

definition runFlow_response :: "string \<Rightarrow> js_error + response \<Rightarrow> pa_world \<Rightarrow> pa_world" where
  "runFlow_response selectedMode outcome w =
     (case outcome of
        Inl e \<Rightarrow> runFlow_catch e w
      | Inr r \<Rightarrow>
          (let w1 = upd_view (pa_addLog (''Response received with status: '' @ String_of_nat (resp_status r))
                                Log_success (now w)) w
           in if \<not> ok r then runFlow_catch (new_Error ''Request failed'') w1
              else setTimeout_nohandle (PA_step3 selectedMode) 2200 w1))"

text \<open>From the settling of \<open>response.json()\<close> to the end of the \<open>try\<close> block;
  \<open>startTime\<close> is the clock read when the run began.\<close>

definition runFlow_json :: "nat \<Rightarrow> js_error + jsval \<Rightarrow> pa_world \<Rightarrow> pa_world" where
  "runFlow_json startTime outcome w =
     (case outcome of
        Inl e \<Rightarrow> runFlow_catch e w
      | Inr data \<Rightarrow>
          setTimeout_nohandle (PA_finish data startTime) 3200
            (upd_view (pa_addLog ''JSON data parsed successfully'' Log_success (now w)) w))"

definition pa_click_mode :: "string \<Rightarrow> pa_world \<Rightarrow> pa_world" where
  "pa_click_mode m w = upd_view (\<lambda>v. v\<lparr>pa_mode := m\<rparr>) w"

definition pa_click_run :: "pa_world \<Rightarrow> pa_world" where
  "pa_click_run w = (if pa_status (view w) = Loading then w else runFlow (pa_mode (view w)) w)"

definition pa_click_reset :: "pa_world \<Rightarrow> pa_world" where
  "pa_click_reset w = upd_view pa_reset w"

definition pa_run :: "network \<Rightarrow> pa_world \<Rightarrow> pa_world" where
  "pa_run net w =
     (let m = pa_mode (view w);
          w1 = runFlow_response m (fetch_outcome net) (advance pa_fire (t_fetch net) (pa_click_run w))
      in case fetch_outcome net of
           Inl e \<Rightarrow> w1
         | Inr r \<Rightarrow> if ok r then runFlow_json (now w) (body_outcome net) (advance pa_fire (t_body net) w1)
                    else w1)"

section \<open>XhrLegacy.jsx\<close>

text \<open>\<open>s.toUpperCase()\<close> on ASCII text.\<close>

definition toUpperCase :: "string \<Rightarrow> string" where
  "toUpperCase s =
     map (\<lambda>c. case map_of (zip ''abcdefghijklmnopqrstuvwxyz'' ''ABCDEFGHIJKLMNOPQRSTUVWXYZ'') c of
                 None \<Rightarrow> c | Some u \<Rightarrow> u) s"

record xl_view =
  xl_step :: nat
  xl_status :: status
  xl_imageUrl :: jsval
  xl_activeMethod :: string
  xl_logs :: "log_entry list"

text \<open>The narration callbacks of \<open>runXhrFlow\<close>; the first and the third close over the
  \<open>activeMethod\<close> of the render that made the handler.\<close>

datatype xl_cb = XL_step1 string | XL_step2 | XL_step3 string | XL_finish jsval

type_synonym xl_world = "(xl_view, xl_cb) world"

definition xl_initial :: xl_view where
  "xl_initial = \<lparr>xl_step = 0, xl_status = Idle, xl_imageUrl = JNull, xl_activeMethod = ''xhr'',
     xl_logs = []\<rparr>"

definition xl_addLog :: "string \<Rightarrow> log_type \<Rightarrow> nat \<Rightarrow> xl_view \<Rightarrow> xl_view" where
  "xl_addLog m ty t v = v\<lparr>xl_logs := xl_logs v @ [entry m ty t]\<rparr>"

definition xl_reset :: "xl_view \<Rightarrow> xl_view" where
  "xl_reset v = v\<lparr>xl_step := 0, xl_status := Idle, xl_imageUrl := JNull, xl_logs := []\<rparr>"

fun xl_fire :: "xl_cb \<Rightarrow> nat \<Rightarrow> xl_view \<Rightarrow> xl_view \<times> js_error option" where
  "xl_fire (XL_step1 activeMethod) t v =
     (xl_addLog (''Browser initiating '' @ toUpperCase activeMethod @ '' request'') Log_info t
        (v\<lparr>xl_step := 1\<rparr>), None)"
| "xl_fire XL_step2 t v =
     (xl_addLog ''Request sent to Cat API server'' Log_info t (v\<lparr>xl_step := 2\<rparr>), None)"
| "xl_fire (XL_step3 activeMethod) t v =
     (xl_addLog ((if activeMethod = ''xhr'' then ''Callback'' else ''Promise'') @ '' processing response'')
        Log_info t (v\<lparr>xl_step := 3\<rparr>), None)"
| "xl_fire (XL_finish data) t v =
     (case first_url data of
        Inl e \<Rightarrow> (v, Some e)
      | Inr u \<Rightarrow> (xl_addLog ''Image rendered in UI'' Log_success t
                    (v\<lparr>xl_imageUrl := u, xl_status := Success\<rparr>), None))"

definition runXhrFlow_catch :: "js_error \<Rightarrow> xl_world \<Rightarrow> xl_world" where
  "runXhrFlow_catch e w =
     upd_view (\<lambda>v. xl_addLog (''Request failed: '' @ err_message e) Log_error (now w)
                     (v\<lparr>xl_status := Error\<rparr>)) w"

text \<open>\<open>runXhrFlow\<close> up to \<open>await fetch(...)\<close>.\<close>

definition runXhrFlow :: "string \<Rightarrow> xl_world \<Rightarrow> xl_world" where
  "runXhrFlow activeMethod w =
     setTimeout_nohandle XL_step2 1400
       (setTimeout_nohandle (XL_step1 activeMethod) 500
          (upd_view (\<lambda>v. xl_addLog (''Starting '' @ toUpperCase activeMethod @ '' request flow...'')
                            Log_info (now w) ((xl_reset v)\<lparr>xl_status := Loading\<rparr>)) w))"

definition runXhrFlow_response :: "js_error + response \<Rightarrow> xl_world \<Rightarrow> xl_world" where
  "runXhrFlow_response outcome w =
     (case outcome of
        Inl e \<Rightarrow> runXhrFlow_catch e w
      | Inr r \<Rightarrow>
          (let w1 = upd_view (xl_addLog (''Response received with status: '' @ String_of_nat (resp_status r))
                                Log_success (now w)) w
           in if \<not> ok r then runXhrFlow_catch (new_Error ''Request failed'') w1 else w1))"

definition runXhrFlow_json :: "string \<Rightarrow> js_error + jsval \<Rightarrow> xl_world \<Rightarrow> xl_world" where
  "runXhrFlow_json activeMethod outcome w =
     (case outcome of
        Inl e \<Rightarrow> runXhrFlow_catch e w
      | Inr data \<Rightarrow>
          setTimeout_nohandle (XL_finish data) 3200
            (setTimeout_nohandle (XL_step3 activeMethod) 2400
               (upd_view (xl_addLog ''JSON data parsed successfully'' Log_success (now w)) w)))"

definition xl_click_method :: "string \<Rightarrow> xl_world \<Rightarrow> xl_world" where
  "xl_click_method m w = upd_view (\<lambda>v. v\<lparr>xl_activeMethod := m\<rparr>) w"

definition xl_click_run :: "xl_world \<Rightarrow> xl_world" where
  "xl_click_run w =
     (if xl_status (view w) = Loading then w else runXhrFlow (xl_activeMethod (view w)) w)"

definition xl_click_reset :: "xl_world \<Rightarrow> xl_world" where
  "xl_click_reset w = upd_view xl_reset w"

definition xl_run :: "network \<Rightarrow> xl_world \<Rightarrow> xl_world" where
  "xl_run net w =
     (let m = xl_activeMethod (view w);
          w1 = runXhrFlow_response (fetch_outcome net) (advance xl_fire (t_fetch net) (xl_click_run w))
      in case fetch_outcome net of
           Inl e \<Rightarrow> w1
         | Inr r \<Rightarrow> if ok r then runXhrFlow_json m (body_outcome net) (advance xl_fire (t_body net) w1)
                    else w1)"

section \<open>The RequestConfig and ResponseParsing pages\<close>

text \<open>Of these two pages the model holds the view state, \<open>reset\<close>, the stretch of the run
  function before its first \<open>await\<close>, and the buttons.\<close>

record config_details =
  cd_method :: "string option"
  cd_headers :: "(string \<times> string) list option"
  cd_body :: "jsval option"

record rc_view =
  rc_step :: nat
  rc_status :: status
  rc_responseStatus :: "nat option"
  rc_logs :: "log_entry list"
  rc_selectedMethod :: string
  rc_configDetails :: config_details

datatype rc_cb = RC_step1 | RC_step2 string | RC_step3 | RC_step4 string | RC_step5

type_synonym rc_world = "(rc_view, rc_cb) world"

definition rc_addLog :: "string \<Rightarrow> log_type \<Rightarrow> nat \<Rightarrow> rc_view \<Rightarrow> rc_view" where
  "rc_addLog m ty t v = v\<lparr>rc_logs := rc_logs v @ [entry m ty t]\<rparr>"

definition rc_reset :: "rc_view \<Rightarrow> rc_view" where
  "rc_reset v = v\<lparr>rc_step := 0, rc_status := Idle, rc_responseStatus := None, rc_logs := [],
     rc_configDetails := \<lparr>cd_method = None, cd_headers = None, cd_body = None\<rparr>\<rparr>"

text \<open>\<open>runConfiguredFetch\<close> up to \<open>await fetch(...)\<close>.\<close>

definition runConfiguredFetch :: "string \<Rightarrow> rc_world \<Rightarrow> rc_world" where
  "runConfiguredFetch selectedMethod w =
     setTimeout_nohandle RC_step5 4000
       (setTimeout_nohandle (RC_step4 selectedMethod) 3200
          (setTimeout_nohandle RC_step3 2200
             (setTimeout_nohandle (RC_step2 selectedMethod) 1200
                (setTimeout_nohandle RC_step1 500
                   (upd_view (\<lambda>v. rc_addLog ''Initializing fetch request configuration...'' Log_info (now w)
                                     ((rc_reset v)\<lparr>rc_status := Loading\<rparr>)) w)))))"

definition rc_click_run :: "rc_world \<Rightarrow> rc_world" where
  "rc_click_run w =
     (if rc_status (view w) = Loading then w else runConfiguredFetch (rc_selectedMethod (view w)) w)"

definition rc_click_reset :: "rc_world \<Rightarrow> rc_world" where
  "rc_click_reset w = upd_view rc_reset w"

record rp_view =
  rp_step :: nat
  rp_status :: status
  rp_mode :: string
  rp_imageUrl :: jsval
  rp_rawPreview :: string
  rp_logs :: "log_entry list"
  rp_contentType :: "string option"
  rp_dataSize :: "nat option"

datatype rp_cb = RP_step1

type_synonym rp_world = "(rp_view, rp_cb) world"

definition rp_addLog :: "string \<Rightarrow> log_type \<Rightarrow> nat \<Rightarrow> rp_view \<Rightarrow> rp_view" where
  "rp_addLog m ty t v = v\<lparr>rp_logs := rp_logs v @ [entry m ty t]\<rparr>"

definition rp_reset :: "rp_view \<Rightarrow> rp_view" where
  "rp_reset v = v\<lparr>rp_step := 0, rp_status := Idle, rp_imageUrl := JNull, rp_rawPreview := [],
     rp_logs := [], rp_contentType := None, rp_dataSize := None\<rparr>"

text \<open>\<open>runParse(selectedMode)\<close> up to \<open>await fetch(...)\<close>.\<close>

definition runParse :: "string \<Rightarrow> rp_world \<Rightarrow> rp_world" where
  "runParse selectedMode w =
     setTimeout_nohandle RP_step1 500
       (upd_view (\<lambda>v. rp_addLog (''Starting response parsing with .'' @ selectedMode @ ''() method'')
                         Log_info (now w)
                         ((rp_reset v)\<lparr>rp_mode := selectedMode, rp_status := Loading\<rparr>)) w)"

definition rp_click_run :: "rp_world \<Rightarrow> rp_world" where
  "rp_click_run w = (if rp_status (view w) = Loading then w else runParse (rp_mode (view w)) w)"

definition rp_click_reset :: "rp_world \<Rightarrow> rp_world" where
  "rp_click_reset w = upd_view rp_reset w"

section \<open>UseHook.jsx\<close>

text \<open>The animation of this page keeps the handles of its timers in \<open>timeoutsRef\<close>, a
  mutable cell beside the view state.\<close>

record uh_view =
  uh_animationStep :: nat
  uh_isAnimating :: bool
  uh_selectedPath :: string
  uh_timeoutsRef :: "nat list"

datatype uh_cb = UH_step nat | UH_end

type_synonym uh_world = "(uh_view, uh_cb) world"

definition uh_initial :: uh_view where
  "uh_initial = \<lparr>uh_animationStep = 0, uh_isAnimating = False, uh_selectedPath = ''success'',
     uh_timeoutsRef = []\<rparr>"

fun uh_fire :: "uh_cb \<Rightarrow> nat \<Rightarrow> uh_view \<Rightarrow> uh_view \<times> js_error option" where
  "uh_fire (UH_step k) t v = (v\<lparr>uh_animationStep := k\<rparr>, None)"
| "uh_fire UH_end t v = (v\<lparr>uh_isAnimating := False\<rparr>, None)"

text \<open>\<open>timeoutsRef.current.forEach(clearTimeout)\<close>.\<close>

definition clear_all :: "uh_world \<Rightarrow> uh_world" where
  "clear_all w = fold clearTimeout (uh_timeoutsRef (view w)) w"

text \<open>\<open>const id = setTimeout(cb, delay); timeoutsRef.current.push(id)\<close>.\<close>

definition schedule_tracked :: "uh_cb \<Rightarrow> nat \<Rightarrow> uh_world \<Rightarrow> uh_world" where
  "schedule_tracked cb delay w =
     (case setTimeout cb delay w of
        (h, w') \<Rightarrow> upd_view (\<lambda>v. v\<lparr>uh_timeoutsRef := uh_timeoutsRef v @ [h]\<rparr>) w')"

definition delays :: "nat list" where
  "delays = [1200, 2400, 3600, 4800, 6000]"

definition startAnimation :: "string \<Rightarrow> uh_world \<Rightarrow> uh_world" where
  "startAnimation path w =
     (let w1 = upd_view (\<lambda>v. v\<lparr>uh_timeoutsRef := []\<rparr>) (clear_all w);
          w2 = upd_view (\<lambda>v. v\<lparr>uh_selectedPath := path, uh_isAnimating := True,
                                 uh_animationStep := 1\<rparr>) w1;
          w3 = fold (\<lambda>(delay, idx). schedule_tracked (UH_step (idx + 2)) delay)
                 (zip delays [0 ..< length delays]) w2
      in schedule_tracked UH_end 7000 w3)"

text \<open>The cleanup of the mount effect, run when the page is unmounted.\<close>

definition uh_unmount :: "uh_world \<Rightarrow> uh_world" where
  "uh_unmount w = clear_all w"

text \<open>The two path buttons are disabled while the animation runs.\<close>

definition uh_click :: "string \<Rightarrow> uh_world \<Rightarrow> uh_world" where
  "uh_click path w = (if uh_isAnimating (view w) then w else startAnimation path w)"

text \<open>What the user and the clock can do to the mounted page.\<close>

datatype uh_event = UH_click string | UH_call string | UH_wait nat

fun uh_step :: "uh_event \<Rightarrow> uh_world \<Rightarrow> uh_world" where
  "uh_step (UH_click path) w = uh_click path w"
| "uh_step (UH_call path) w = startAnimation path w"
| "uh_step (UH_wait t) w = advance uh_fire t w"

definition uh_trace :: "uh_event list \<Rightarrow> uh_world" where
  "uh_trace es = fold uh_step es (fresh uh_initial)"

text \<open>The six timers one call of \<open>startAnimation\<close> schedules at clock \<open>n\<close> when the next
  free handle is \<open>h\<close>, and the property that \<open>timeoutsRef\<close> holds the handle of every
  pending timer.\<close>

definition animation_timers :: "nat \<Rightarrow> nat \<Rightarrow> uh_cb timer list" where
  "animation_timers n h =
     [\<lparr>tid = h, due = n + 1200, callback = UH_step 2\<rparr>,
      \<lparr>tid = h + 1, due = n + 2400, callback = UH_step 3\<rparr>,
      \<lparr>tid = h + 2, due = n + 3600, callback = UH_step 4\<rparr>,
      \<lparr>tid = h + 3, due = n + 4800, callback = UH_step 5\<rparr>,
      \<lparr>tid = h + 4, due = n + 6000, callback = UH_step 6\<rparr>,
      \<lparr>tid = h + 5, due = n + 7000, callback = UH_end\<rparr>]"

definition tracked :: "uh_world \<Rightarrow> bool" where
  "tracked w = (tid ` set (timers w) \<subseteq> set (uh_timeoutsRef (view w)))"

text \<open>The classification as the specification words it: by the selected scenario alone.\<close>

definition classify_by_scenario :: "string \<Rightarrow> string" where
  "classify_by_scenario scenario =
     (if scenario = ''parsing'' then ''Parsing Error''
      else if scenario = ''network'' then ''Network Error''
      else if scenario = ''http'' then ''HTTP Error''
      else ''Unknown Error'')"



section \<open>Callbacks that leave part of the view alone\<close>

text \<open>\<open>keeps fire p c\<close>: callback \<open>c\<close> never changes the part \<open>p\<close> of the view;
  \<open>stays fire q c\<close>: once \<open>q\<close> holds of the view, it holds after \<open>c\<close>.\<close>

definition keeps :: "('cb \<Rightarrow> nat \<Rightarrow> 'v \<Rightarrow> 'v \<times> js_error option) \<Rightarrow> ('v \<Rightarrow> 'a) \<Rightarrow> 'cb \<Rightarrow> bool" where
  "keeps fire p c = (\<forall>t v. p (fst (fire c t v)) = p v)"


text \<open>What the result panel of FetchBasics depends on.\<close>

definition fb_shown :: "fb_view \<Rightarrow> status \<times> jsval" where
  "fb_shown v = (fb_status v, fb_imageUrl v)"

section \<open>Inputs used in the worked examples\<close>

definition rc_initial :: rc_view where
  "rc_initial = \<lparr>rc_step = 0, rc_status = Idle, rc_responseStatus = None, rc_logs = [],
     rc_selectedMethod = ''GET'',
     rc_configDetails = \<lparr>cd_method = None, cd_headers = None, cd_body = None\<rparr>\<rparr>"

definition rp_initial :: rp_view where
  "rp_initial = \<lparr>rp_step = 0, rp_status = Idle, rp_mode = ''json'', rp_imageUrl = JNull,
     rp_rawPreview = [], rp_logs = [], rp_contentType = None, rp_dataSize = None\<rparr>"

text \<open>A body as the image API sends it, and a network that answers 200 with it after
  300 ms and has the body read 20 ms later.\<close>

definition cat_url :: jsval where
  "cat_url = JStr ''https://cdn2.thecatapi.com/images/9j5.jpg''"

definition cat_fields :: "(string \<times> jsval) list" where
  "cat_fields = [(''id'', JStr ''9j5''), (''url'', cat_url), (''width'', JNum 500), (''height'', JNum 375)]"

definition cat_net :: network where
  "cat_net = \<lparr>t_fetch = 300, fetch_outcome = Inr \<lparr>resp_status = 200\<rparr>, t_body = 320,
     body_outcome = Inr (JArr [JObj cat_fields])\<rparr>"

text \<open>The same network answering 200 with an empty list, and one answering 404.\<close>

definition empty_net :: network where
  "empty_net = cat_net\<lparr>body_outcome := Inr (JArr [])\<rparr>"


section \<open>Properties of the event loop\<close>

lemma insort_key_snoc:
  "\<forall>y\<in>set zs. f y \<le> f x \<Longrightarrow> f a \<le> f x \<Longrightarrow> insort_key f a (zs @ [x]) = insort_key f a zs @ [x]"
  by (induction zs) auto

lemma sort_key_snoc:
  "\<forall>y\<in>set xs. f y \<le> f x \<Longrightarrow> sort_key f (xs @ [x]) = sort_key f xs @ [x]"
proof (induction xs)
  case Nil
  then show ?case by simp
next
  case (Cons a xs)
  then have "sort_key f (xs @ [x]) = sort_key f xs @ [x]" by simp
  moreover have "insort_key f a (sort_key f xs @ [x]) = insort_key f a (sort_key f xs) @ [x]"
    using Cons.prems by (intro insort_key_snoc) auto
  ultimately show ?case by simp
qed

lemma timers_run_timer [simp]: "timers (run_timer fire x w) = timers w"
  by (simp add: run_timer_def Let_def split: prod.splits option.splits)

lemma next_id_run_timer [simp]: "next_id (run_timer fire x w) = next_id w"
  by (simp add: run_timer_def Let_def split: prod.splits option.splits)

lemma now_run_timer [simp]: "now (run_timer fire x w) = max (now w) (due x)"
  by (simp add: run_timer_def Let_def split: prod.splits option.splits)

lemma timers_fold_run_timer [simp]: "timers (fold (run_timer fire) xs w) = timers w"
  by (induction xs arbitrary: w) auto

lemma next_id_fold_run_timer [simp]: "next_id (fold (run_timer fire) xs w) = next_id w"
  by (induction xs arbitrary: w) auto

lemma now_fold_run_timer: "now w \<le> now (fold (run_timer fire) xs w)"
proof (induction xs arbitrary: w)
  case Nil
  show ?case by simp
next
  case (Cons x xs)
  have "now w \<le> now (run_timer fire x w)" by simp
  also have "\<dots> \<le> now (fold (run_timer fire) xs (run_timer fire x w))" by (rule Cons.IH)
  finally show ?case by simp
qed

lemma timers_fire_due [simp]: "timers (fire_due fire t w) = filter (\<lambda>x. t < due x) (timers w)"
  by (simp add: fire_due_def)

lemma timers_advance [simp]: "timers (advance fire t w) = filter (\<lambda>x. t < due x) (timers w)"
  by (simp add: advance_def Let_def)

lemma next_id_advance [simp]: "next_id (advance fire t w) = next_id w"
  by (simp add: advance_def Let_def fire_due_def)

lemma now_advance_ge: "now w \<le> now (advance fire t w)"
proof -
  have "now w \<le> now (fire_due fire t w)"
    using now_fold_run_timer [of "w\<lparr>timers := filter (\<lambda>x. t < due x) (timers w)\<rparr>" fire]
    by (simp add: fire_due_def)
  then show ?thesis by (simp add: advance_def Let_def)
qed

lemma now_advance_ge': "t \<le> now (advance fire t w)"
  by (simp add: advance_def Let_def)

lemma view_advance: "view (advance fire t w) = view (fire_due fire t w)"
  by (simp add: advance_def Let_def)

lemma uncaught_advance: "uncaught (advance fire t w) = uncaught (fire_due fire t w)"
  by (simp add: advance_def Let_def)

lemma fire_due_snoc:
  assumes "timers w = xs @ [x]" and "\<forall>y\<in>set xs. due y \<le> due x" and "due x \<le> t"
  shows "fire_due fire t w = run_timer fire x (fire_due fire t (w\<lparr>timers := xs\<rparr>))"
proof -
  have "sort_key due (filter (\<lambda>y. due y \<le> t) (xs @ [x])) = sort_key due (filter (\<lambda>y. due y \<le> t) xs) @ [x]"
    using assms by (simp add: sort_key_snoc)
  then show ?thesis using assms by (simp add: fire_due_def)
qed

lemma view_run_timer: "view (run_timer fire x w) = fst (fire (callback x) (max (now w) (due x)) (view w))"
  by (simp add: run_timer_def Let_def split: prod.splits option.splits)

lemma fold_run_timer_keeps:
  "\<forall>x\<in>set xs. keeps fire p (callback x) \<Longrightarrow> p (view (fold (run_timer fire) xs w)) = p (view w)"
  by (induction xs arbitrary: w) (auto simp: view_run_timer keeps_def)

lemma advance_keeps:
  assumes "\<forall>x\<in>set (timers w). due x \<le> t \<longrightarrow> keeps fire p (callback x)"
  shows "p (view (advance fire t w)) = p (view w)"
proof -
  have "\<forall>x\<in>set (sort_key due (filter (\<lambda>x. due x \<le> t) (timers w))). keeps fire p (callback x)"
    using assms by simp
  then show ?thesis
    by (simp add: view_advance fire_due_def fold_run_timer_keeps)
qed


lemma fold_max_init: "(n::nat) \<le> fold max xs n"
proof (induction xs arbitrary: n)
  case Nil
  show ?case by simp
next
  case (Cons a xs)
  have "n \<le> max a n" by simp
  also have "\<dots> \<le> fold max xs (max a n)" by (rule Cons.IH)
  finally show ?case by simp
qed

lemma fold_max_ge: "\<forall>x\<in>set xs. f x \<le> fold max (map f xs) (n::nat)"
proof (induction xs arbitrary: n)
  case Nil
  show ?case by simp
next
  case (Cons a xs)
  have "f a \<le> max (f a) n" by simp
  also have "\<dots> \<le> fold max (map f xs) (max (f a) n)" by (rule fold_max_init)
  finally show ?case using Cons.IH [of "max (f a) n"] by simp
qed

lemma timers_settle [simp]: "timers (settle fire w) = []"
  using fold_max_ge [of "timers w" due "now w"]
  by (auto simp: settle_def filter_empty_conv not_less)


lemma view_advance_snoc:
  assumes "timers w = xs @ [x]" and "\<forall>y\<in>set xs. due y \<le> due x" and "due x \<le> t"
  shows "\<exists>t'. view (advance fire t w) =
              fst (fire (callback x) t' (view (advance fire t (w\<lparr>timers := xs\<rparr>))))"
  using fire_due_snoc [OF assms, of fire]
  by (auto simp: view_advance view_run_timer)

lemma now_upd_view [simp]: "now (upd_view f w) = now w"
  and timers_upd_view [simp]: "timers (upd_view f w) = timers w"
  and next_id_upd_view [simp]: "next_id (upd_view f w) = next_id w"
  and uncaught_upd_view [simp]: "uncaught (upd_view f w) = uncaught w"
  and view_upd_view [simp]: "view (upd_view f w) = f (view w)"
  by (simp_all add: upd_view_def)

lemma setTimeout_nohandle_fields [simp]:
  "timers (setTimeout_nohandle cb d w) = timers w @ [\<lparr>tid = next_id w, due = now w + d, callback = cb\<rparr>]"
  "now (setTimeout_nohandle cb d w) = now w"
  "view (setTimeout_nohandle cb d w) = view w"
  "uncaught (setTimeout_nohandle cb d w) = uncaught w"
  "next_id (setTimeout_nohandle cb d w) = Suc (next_id w)"
  by (simp_all add: setTimeout_nohandle_def setTimeout_def)

lemma now_fold_run_timer_le:
  "\<forall>x\<in>set xs. due x \<le> t \<Longrightarrow> now (fold (run_timer fire) xs w) \<le> max (now w) t"
proof (induction xs arbitrary: w)
  case Nil
  show ?case by simp
next
  case (Cons a xs)
  have "now (fold (run_timer fire) xs (run_timer fire a w)) \<le> max (now (run_timer fire a w)) t"
    using Cons.prems by (intro Cons.IH) simp
  also have "\<dots> \<le> max (now w) t" using Cons.prems by (simp add: max.coboundedI2)
  finally show ?case by simp
qed

lemma now_advance: "now (advance fire t w) = max (now w) t"
proof -
  let ?w = "w\<lparr>timers := filter (\<lambda>x. t < due x) (timers w)\<rparr>"
  let ?xs = "sort_key due (filter (\<lambda>x. due x \<le> t) (timers w))"
  have "now (fold (run_timer fire) ?xs ?w) \<le> max (now ?w) t"
    by (rule now_fold_run_timer_le) simp
  moreover have "now ?w \<le> now (fold (run_timer fire) ?xs ?w)" by (rule now_fold_run_timer)
  ultimately have "max (now (fold (run_timer fire) ?xs ?w)) t = max (now w) t" by simp
  then show ?thesis by (simp add: advance_def fire_due_def Let_def)
qed

subsection \<open>Runs of FetchBasics\<close>

lemmas fb_defs = runFetch_def runFetch_response_def runFetch_json_def runFetch_catch_def
  setTimeout_nohandle_def setTimeout_def upd_view_def fb_reset_def fb_addLog_def

lemma runFetch_timers:
  "timers (runFetch w) = timers w @
     [\<lparr>tid = next_id w, due = now w + 500, callback = FB_step1\<rparr>,
      \<lparr>tid = Suc (next_id w), due = now w + 1400, callback = FB_step2\<rparr>]"
  by (simp add: fb_defs)

lemma runFetch_now [simp]: "now (runFetch w) = now w"
  by (simp add: fb_defs)

lemma runFetch_view:
  "view (runFetch w) = \<lparr>fb_step = 0, fb_status = Loading, fb_imageUrl = JNull,
      fb_logs = [entry ''Starting fetch request...'' Log_info (now w)], fb_responseData = JNull\<rparr>"
  by (simp add: fb_defs)

lemma runFetch_response_ok:
  "ok r \<Longrightarrow> runFetch_response (Inr r) w =
     upd_view (fb_addLog (''Response received. Status: '' @ String_of_nat (resp_status r)) Log_success (now w)) w"
  by (simp add: runFetch_response_def Let_def)

lemma runFetch_json_timers:
  "timers (runFetch_json (Inr data) w) = timers w @
     [\<lparr>tid = next_id w, due = now w + 2400, callback = FB_step3\<rparr>,
      \<lparr>tid = Suc (next_id w), due = now w + 3200, callback = FB_finish data\<rparr>]"
  by (simp add: fb_defs)


lemma first_url_found:
  "map_of kvs ''url'' = Some u \<Longrightarrow> first_url (JArr (JObj kvs # rest)) = Inr u"
  by (simp add: first_url_def get_index_def get_prop_def)

lemma fb_run_shape:
  assumes "timers w = []" and "fb_status (view w) \<noteq> Loading"
    and "fetch_outcome net = Inr r" and "ok r" and "body_outcome net = Inr data"
  shows "\<exists>xs i j. timers (fb_run net w) =
            xs @ [\<lparr>tid = i, due = now (fb_run net w) + 2400, callback = FB_step3\<rparr>,
                  \<lparr>tid = j, due = now (fb_run net w) + 3200, callback = FB_finish data\<rparr>]
          \<and> (\<forall>y\<in>set xs. due y \<le> now (fb_run net w) + 1400 \<and> keeps fb_fire fb_shown (callback y))"
    and "fb_shown (view (fb_run net w)) = (Loading, JNull)"
    and "fb_shown (view (runFetch_response (Inr r) (advance fb_fire (t_fetch net) (fb_click_run w))))
           = (Loading, JNull)"
proof -
  define W0 where "W0 = runFetch w"
  define W1 where "W1 = advance fb_fire (t_fetch net) W0"
  define W1' where "W1' = runFetch_response (Inr r) W1"
  define W2 where "W2 = advance fb_fire (t_body net) W1'"
  have run: "fb_run net w = runFetch_json (Inr data) W2"
    using assms by (simp add: fb_run_def fb_click_run_def Let_def W0_def W1_def W1'_def W2_def)
  have k1: "keeps fb_fire fb_shown FB_step1" and k2: "keeps fb_fire fb_shown FB_step2"
    by (simp_all add: keeps_def fb_addLog_def fb_shown_def)
  have t0: "\<forall>y\<in>set (timers W0). due y \<le> now w + 1400 \<and> keeps fb_fire fb_shown (callback y)"
    using assms(1) k1 k2 by (simp add: W0_def runFetch_timers)
  have n01: "now w \<le> now W1"
    unfolding W1_def using now_advance_ge [of W0 fb_fire] by (simp add: W0_def)
  have W1'_eq: "W1' = upd_view (fb_addLog (''Response received. Status: '' @ String_of_nat (resp_status r))
                                   Log_success (now W1)) W1"
    unfolding W1'_def using assms(4) by (rule runFetch_response_ok)
  have n12: "now W1 \<le> now W2"
    unfolding W2_def using now_advance_ge [of W1' fb_fire] by (simp add: W1'_eq)
  have t2: "\<forall>y\<in>set (timers W2). due y \<le> now W2 + 1400 \<and> keeps fb_fire fb_shown (callback y)"
    using t0 n01 n12 by (auto simp: W2_def W1'_eq W1_def)
  have nW: "now (fb_run net w) = now W2" by (simp add: run fb_defs)
  show "\<exists>xs i j. timers (fb_run net w) =
            xs @ [\<lparr>tid = i, due = now (fb_run net w) + 2400, callback = FB_step3\<rparr>,
                  \<lparr>tid = j, due = now (fb_run net w) + 3200, callback = FB_finish data\<rparr>]
          \<and> (\<forall>y\<in>set xs. due y \<le> now (fb_run net w) + 1400 \<and> keeps fb_fire fb_shown (callback y))"
    unfolding nW using t2 by (simp add: run runFetch_json_timers)
  have s0: "fb_shown (view W0) = (Loading, JNull)" by (simp add: W0_def runFetch_view fb_shown_def)
  have s1: "fb_shown (view W1) = (Loading, JNull)"
    unfolding W1_def using t0 s0 advance_keeps [of W0 "t_fetch net" fb_fire fb_shown] by simp
  have s1': "fb_shown (view W1') = (Loading, JNull)"
    using s1 by (simp add: W1'_eq fb_addLog_def fb_shown_def)
  then show "fb_shown (view (runFetch_response (Inr r) (advance fb_fire (t_fetch net) (fb_click_run w))))
           = (Loading, JNull)"
    using assms(2) by (simp add: W1'_def W1_def W0_def fb_click_run_def)
  have t1': "\<forall>y\<in>set (timers W1'). keeps fb_fire fb_shown (callback y)"
    using t0 by (auto simp: W1'_eq W1_def)
  have s2: "fb_shown (view W2) = (Loading, JNull)"
    unfolding W2_def using t1' s1' advance_keeps [of W1' "t_body net" fb_fire fb_shown] by simp
  show "fb_shown (view (fb_run net w)) = (Loading, JNull)"
    using s2 by (simp add: run fb_defs fb_shown_def)
qed

lemma fb_success_end:
  assumes "timers w = []" and "fb_status (view w) \<noteq> Loading"
    and "fetch_outcome net = Inr r" and "ok r" and "body_outcome net = Inr data"
    and "first_url data = Inr u" and "now (fb_run net w) + 3200 \<le> t"
  shows "\<exists>t' t'' v. view (advance fb_fire t (fb_run net w)) =
           fb_addLog ''Image rendered successfully.'' Log_success t'
             ((fb_addLog ''Updating UI with fetched data...'' Log_info t'' (v\<lparr>fb_step := 3\<rparr>))
                \<lparr>fb_imageUrl := u, fb_status := Success\<rparr>)"
    and "timers (advance fb_fire t (fb_run net w)) = []"
proof -
  let ?W = "fb_run net w"
  from fb_run_shape(1) [OF assms(1-5)] obtain xs i j where
    tm: "timers ?W = xs @ [\<lparr>tid = i, due = now ?W + 2400, callback = FB_step3\<rparr>,
                  \<lparr>tid = j, due = now ?W + 3200, callback = FB_finish data\<rparr>]"
    and xs: "\<forall>y\<in>set xs. due y \<le> now ?W + 1400 \<and> keeps fb_fire fb_shown (callback y)"
    by blast
  let ?s3 = "\<lparr>tid = i, due = now ?W + 2400, callback = FB_step3\<rparr>"
  let ?fin = "\<lparr>tid = j, due = now ?W + 3200, callback = FB_finish data\<rparr>"
  have tm': "timers ?W = (xs @ [?s3]) @ [?fin]"
    using tm by simp
  have le: "\<forall>y\<in>set (xs @ [?s3]). due y \<le> due ?fin"
    using xs by fastforce
  have tm2: "timers (?W\<lparr>timers := xs @ [?s3]\<rparr>) = xs @ [?s3]" by simp
  have le2: "\<forall>y\<in>set xs. due y \<le> due ?s3" using xs by fastforce
  from view_advance_snoc [OF tm' le, of t fb_fire] assms(7)
  obtain t' where 1: "view (advance fb_fire t ?W) =
      fst (fb_fire (FB_finish data) t' (view (advance fb_fire t (?W\<lparr>timers := xs @ [?s3]\<rparr>))))"
    by auto
  from view_advance_snoc [OF tm2 le2, of t fb_fire] assms(7)
  obtain t'' v where 2: "view (advance fb_fire t (?W\<lparr>timers := xs @ [?s3]\<rparr>)) =
      fst (fb_fire FB_step3 t'' v)"
    by auto
  show "\<exists>t' t'' v. view (advance fb_fire t ?W) =
           fb_addLog ''Image rendered successfully.'' Log_success t'
             ((fb_addLog ''Updating UI with fetched data...'' Log_info t'' (v\<lparr>fb_step := 3\<rparr>))
                \<lparr>fb_imageUrl := u, fb_status := Success\<rparr>)"
    unfolding 1 2 using assms(6) by auto
  show "timers (advance fb_fire t ?W) = []"
    using tm xs assms(7) by (fastforce simp: filter_empty_conv)
qed

lemma fb_loading_before_end:
  assumes "timers w = []" and "fb_status (view w) \<noteq> Loading"
    and "fetch_outcome net = Inr r" and "ok r" and "body_outcome net = Inr data"
    and "t < now (fb_run net w) + 3200"
  shows "fb_shown (view (advance fb_fire t (fb_run net w))) = (Loading, JNull)"
proof -
  let ?W = "fb_run net w"
  from fb_run_shape(1) [OF assms(1-5)] obtain xs i j where
    tm: "timers ?W = xs @ [\<lparr>tid = i, due = now ?W + 2400, callback = FB_step3\<rparr>,
                  \<lparr>tid = j, due = now ?W + 3200, callback = FB_finish data\<rparr>]"
    and xs: "\<forall>y\<in>set xs. due y \<le> now ?W + 1400 \<and> keeps fb_fire fb_shown (callback y)"
    by blast
  have k3: "keeps fb_fire fb_shown FB_step3" by (simp add: keeps_def fb_addLog_def fb_shown_def)
  have "\<forall>x\<in>set (timers ?W). due x \<le> t \<longrightarrow> keeps fb_fire fb_shown (callback x)"
    unfolding tm using xs k3 assms(6) by auto
  from advance_keeps [OF this] fb_run_shape(2) [OF assms(1-5)] show ?thesis by simp
qed

lemma fb_run_now:
  assumes "fetch_outcome net = Inr r" and "ok r" and "body_outcome net = Inr data"
  shows "now (fb_run net w) = max (max (now w) (t_fetch net)) (t_body net)"
  using assms
  by (simp add: fb_run_def Let_def runFetch_response_ok now_advance fb_click_run_def
        runFetch_json_def)

subsection \<open>Runs of XhrLegacy\<close>

lemmas xl_defs = runXhrFlow_def runXhrFlow_response_def runXhrFlow_json_def runXhrFlow_catch_def
  setTimeout_nohandle_def setTimeout_def upd_view_def xl_reset_def xl_addLog_def

lemma runXhrFlow_timers:
  "timers (runXhrFlow m w) = timers w @
     [\<lparr>tid = next_id w, due = now w + 500, callback = XL_step1 m\<rparr>,
      \<lparr>tid = Suc (next_id w), due = now w + 1400, callback = XL_step2\<rparr>]"
  by (simp add: xl_defs)

lemma runXhrFlow_now [simp]: "now (runXhrFlow m w) = now w"
  by (simp add: xl_defs)

lemma runXhrFlow_status [simp]: "xl_status (view (runXhrFlow m w)) = Loading"
  by (simp add: xl_defs)

lemma runXhrFlow_response_ok:
  "ok r \<Longrightarrow> runXhrFlow_response (Inr r) w =
     upd_view (xl_addLog (''Response received with status: '' @ String_of_nat (resp_status r)) Log_success (now w)) w"
  by (simp add: runXhrFlow_response_def Let_def)

lemma runXhrFlow_json_timers:
  "timers (runXhrFlow_json m (Inr data) w) = timers w @
     [\<lparr>tid = next_id w, due = now w + 2400, callback = XL_step3 m\<rparr>,
      \<lparr>tid = Suc (next_id w), due = now w + 3200, callback = XL_finish data\<rparr>]"
  by (simp add: xl_defs)

lemma xl_run_shape:
  assumes "timers w = []" and "xl_status (view w) \<noteq> Loading"
    and "fetch_outcome net = Inr r" and "ok r" and "body_outcome net = Inr data"
  shows "\<exists>xs i j m. timers (xl_run net w) =
            xs @ [\<lparr>tid = i, due = now (xl_run net w) + 2400, callback = XL_step3 m\<rparr>,
                  \<lparr>tid = j, due = now (xl_run net w) + 3200, callback = XL_finish data\<rparr>]
          \<and> (\<forall>y\<in>set xs. due y \<le> now (xl_run net w) + 1400 \<and> keeps xl_fire xl_status (callback y))"
    and "xl_status (view (xl_run net w)) = Loading"
proof -
  define m where "m = xl_activeMethod (view w)"
  define W0 where "W0 = runXhrFlow m w"
  define W1 where "W1 = advance xl_fire (t_fetch net) W0"
  define W1' where "W1' = runXhrFlow_response (Inr r) W1"
  define W2 where "W2 = advance xl_fire (t_body net) W1'"
  have run: "xl_run net w = runXhrFlow_json m (Inr data) W2"
    using assms by (simp add: xl_run_def xl_click_run_def Let_def m_def W0_def W1_def W1'_def W2_def)
  have k1: "keeps xl_fire xl_status (XL_step1 m)" and k2: "keeps xl_fire xl_status XL_step2"
    by (simp_all add: keeps_def xl_addLog_def)
  have t0: "\<forall>y\<in>set (timers W0). due y \<le> now w + 1400 \<and> keeps xl_fire xl_status (callback y)"
    using assms(1) k1 k2 by (simp add: W0_def runXhrFlow_timers)
  have n01: "now w \<le> now W1"
    unfolding W1_def using now_advance_ge [of W0 xl_fire] by (simp add: W0_def)
  have W1'_eq: "W1' = upd_view (xl_addLog (''Response received with status: '' @ String_of_nat (resp_status r))
                                   Log_success (now W1)) W1"
    unfolding W1'_def using assms(4) by (rule runXhrFlow_response_ok)
  have n12: "now W1 \<le> now W2"
    unfolding W2_def using now_advance_ge [of W1' xl_fire] by (simp add: W1'_eq)
  have t2: "\<forall>y\<in>set (timers W2). due y \<le> now W2 + 1400 \<and> keeps xl_fire xl_status (callback y)"
    using t0 n01 n12 by (auto simp: W2_def W1'_eq W1_def)
  have nW: "now (xl_run net w) = now W2" by (simp add: run xl_defs)
  show "\<exists>xs i j m. timers (xl_run net w) =
            xs @ [\<lparr>tid = i, due = now (xl_run net w) + 2400, callback = XL_step3 m\<rparr>,
                  \<lparr>tid = j, due = now (xl_run net w) + 3200, callback = XL_finish data\<rparr>]
          \<and> (\<forall>y\<in>set xs. due y \<le> now (xl_run net w) + 1400 \<and> keeps xl_fire xl_status (callback y))"
    unfolding nW using t2 by (simp add: run runXhrFlow_json_timers)
  have s0: "xl_status (view W0) = Loading" by (simp add: W0_def)
  have s1: "xl_status (view W1) = Loading"
    unfolding W1_def using t0 s0 advance_keeps [of W0 "t_fetch net" xl_fire xl_status] by simp
  have s1': "xl_status (view W1') = Loading" using s1 by (simp add: W1'_eq xl_addLog_def)
  have t1': "\<forall>y\<in>set (timers W1'). keeps xl_fire xl_status (callback y)"
    using t0 by (auto simp: W1'_eq W1_def)
  have s2: "xl_status (view W2) = Loading"
    unfolding W2_def using t1' s1' advance_keeps [of W1' "t_body net" xl_fire xl_status] by simp
  show "xl_status (view (xl_run net w)) = Loading"
    using s2 by (simp add: run xl_defs)
qed

lemma xl_success_end:
  assumes "timers w = []" and "xl_status (view w) \<noteq> Loading"
    and "fetch_outcome net = Inr r" and "ok r" and "body_outcome net = Inr data"
    and "first_url data = Inr u" and "now (xl_run net w) + 3200 \<le> t"
  shows "\<exists>t' v. view (advance xl_fire t (xl_run net w)) =
           xl_addLog ''Image rendered in UI'' Log_success t' (v\<lparr>xl_imageUrl := u, xl_status := Success\<rparr>)"
proof -
  let ?W = "xl_run net w"
  from xl_run_shape(1) [OF assms(1-5)] obtain xs i j m where
    tm: "timers ?W = xs @ [\<lparr>tid = i, due = now ?W + 2400, callback = XL_step3 m\<rparr>,
                  \<lparr>tid = j, due = now ?W + 3200, callback = XL_finish data\<rparr>]"
    and xs: "\<forall>y\<in>set xs. due y \<le> now ?W + 1400 \<and> keeps xl_fire xl_status (callback y)"
    by blast
  let ?s3 = "\<lparr>tid = i, due = now ?W + 2400, callback = XL_step3 m\<rparr>"
  let ?fin = "\<lparr>tid = j, due = now ?W + 3200, callback = XL_finish data\<rparr>"
  have tm': "timers ?W = (xs @ [?s3]) @ [?fin]"
    using tm by simp
  have le: "\<forall>y\<in>set (xs @ [?s3]). due y \<le> due ?fin"
    using xs by fastforce
  from view_advance_snoc [OF tm' le, of t xl_fire] assms(6,7) show ?thesis
    by auto
qed

subsection \<open>Runs of PromisesAsync\<close>

lemmas pa_defs = runFlow_def runFlow_response_def runFlow_json_def runFlow_catch_def
  setTimeout_nohandle_def setTimeout_def upd_view_def pa_reset_def pa_addLog_def

lemma runFlow_timers:
  "timers (runFlow m w) = timers w @
     [\<lparr>tid = next_id w, due = now w + 500, callback = PA_step1\<rparr>,
      \<lparr>tid = Suc (next_id w), due = now w + 1200, callback = PA_step2\<rparr>]"
  by (simp add: pa_defs)

lemma runFlow_now [simp]: "now (runFlow m w) = now w"
  by (simp add: pa_defs)

lemma runFlow_status [simp]: "pa_status (view (runFlow m w)) = Loading"
  by (simp add: pa_defs)

lemma runFlow_response_ok:
  "ok r \<Longrightarrow> runFlow_response m (Inr r) w =
     setTimeout_nohandle (PA_step3 m) 2200
       (upd_view (pa_addLog (''Response received with status: '' @ String_of_nat (resp_status r)) Log_success (now w)) w)"
  by (simp add: runFlow_response_def Let_def)

lemma pa_run_shape:
  assumes "timers w = []" and "pa_status (view w) \<noteq> Loading"
    and "fetch_outcome net = Inr r" and "ok r" and "body_outcome net = Inr data"
  shows "\<exists>xs j. timers (pa_run net w) =
            xs @ [\<lparr>tid = j, due = now (pa_run net w) + 3200, callback = PA_finish data (now w)\<rparr>]
          \<and> (\<forall>y\<in>set xs. due y \<le> now (pa_run net w) + 2200 \<and> keeps pa_fire pa_status (callback y))"
    and "pa_status (view (pa_run net w)) = Loading"
proof -
  define m where "m = pa_mode (view w)"
  define W0 where "W0 = runFlow m w"
  define W1 where "W1 = advance pa_fire (t_fetch net) W0"
  define W1' where "W1' = runFlow_response m (Inr r) W1"
  define W2 where "W2 = advance pa_fire (t_body net) W1'"
  have run: "pa_run net w = runFlow_json (now w) (Inr data) W2"
    using assms by (simp add: pa_run_def pa_click_run_def Let_def m_def W0_def W1_def W1'_def W2_def)
  have k1: "keeps pa_fire pa_status PA_step1" and k2: "keeps pa_fire pa_status PA_step2"
    and k3: "keeps pa_fire pa_status (PA_step3 m)"
    by (simp_all add: keeps_def pa_addLog_def)
  have t0: "\<forall>y\<in>set (timers W0). due y \<le> now w + 1200 \<and> keeps pa_fire pa_status (callback y)"
    using assms(1) k1 k2 by (simp add: W0_def runFlow_timers)
  have n01: "now w \<le> now W1"
    unfolding W1_def using now_advance_ge [of W0 pa_fire] by (simp add: W0_def)
  have W1'_eq: "W1' = setTimeout_nohandle (PA_step3 m) 2200
       (upd_view (pa_addLog (''Response received with status: '' @ String_of_nat (resp_status r)) Log_success (now W1)) W1)"
    unfolding W1'_def using assms(4) by (rule runFlow_response_ok)
  have n1': "now W1' = now W1" by (simp add: W1'_eq)
  have t1': "\<forall>y\<in>set (timers W1'). due y \<le> now W1 + 2200 \<and> keeps pa_fire pa_status (callback y)"
    using t0 n01 k3 by (auto simp: W1'_eq W1_def)
  have n12: "now W1 \<le> now W2"
    unfolding W2_def using now_advance_ge [of W1' pa_fire] by (simp add: n1')
  have t2: "\<forall>y\<in>set (timers W2). due y \<le> now W2 + 2200 \<and> keeps pa_fire pa_status (callback y)"
    using t1' n12 by (auto simp: W2_def)
  have nW: "now (pa_run net w) = now W2" by (simp add: run runFlow_json_def)
  show "\<exists>xs j. timers (pa_run net w) =
            xs @ [\<lparr>tid = j, due = now (pa_run net w) + 3200, callback = PA_finish data (now w)\<rparr>]
          \<and> (\<forall>y\<in>set xs. due y \<le> now (pa_run net w) + 2200 \<and> keeps pa_fire pa_status (callback y))"
    unfolding nW using t2 by (simp add: run runFlow_json_def)
  have s0: "pa_status (view W0) = Loading" by (simp add: W0_def)
  have s1: "pa_status (view W1) = Loading"
    unfolding W1_def using t0 s0 advance_keeps [of W0 "t_fetch net" pa_fire pa_status] by simp
  have s1': "pa_status (view W1') = Loading" using s1 by (simp add: W1'_eq pa_addLog_def)
  have s2: "pa_status (view W2) = Loading"
    unfolding W2_def using t1' s1' advance_keeps [of W1' "t_body net" pa_fire pa_status] by simp
  show "pa_status (view (pa_run net w)) = Loading"
    using s2 by (simp add: run runFlow_json_def pa_addLog_def)
qed

lemma pa_success_end:
  assumes "timers w = []" and "pa_status (view w) \<noteq> Loading"
    and "fetch_outcome net = Inr r" and "ok r" and "body_outcome net = Inr data"
    and "first_url data = Inr u" and "now (pa_run net w) + 3200 \<le> t"
  shows "\<exists>t' v. view (advance pa_fire t (pa_run net w)) =
           pa_addLog (''Total execution time: '' @ String_of_nat (t' - now w) @ ''ms'') Log_info t'
             (pa_addLog ''UI updated with image'' Log_success t'
                (v\<lparr>pa_step := 4, pa_imageUrl := u, pa_status := Success,
                   pa_executionTime := Some (t' - now w)\<rparr>))"
proof -
  let ?W = "pa_run net w"
  from pa_run_shape(1) [OF assms(1-5)] obtain xs j where
    tm: "timers ?W = xs @ [\<lparr>tid = j, due = now ?W + 3200, callback = PA_finish data (now w)\<rparr>]"
    and xs: "\<forall>y\<in>set xs. due y \<le> now ?W + 2200 \<and> keeps pa_fire pa_status (callback y)"
    by blast
  let ?fin = "\<lparr>tid = j, due = now ?W + 3200, callback = PA_finish data (now w)\<rparr>"
  have le: "\<forall>y\<in>set xs. due y \<le> due ?fin"
    using xs by fastforce
  from view_advance_snoc [OF tm le, of t pa_fire] assms(6,7) show ?thesis
    by auto
qed



subsection \<open>Runs of ErrorHandling\<close>



lemma settle_last:
  assumes "timers w = xs @ [x]" and "\<forall>y\<in>set xs. due y \<le> due x"
  shows "\<exists>t' t. view (settle fire w) = fst (fire (callback x) t' (view (advance fire t (w\<lparr>timers := xs\<rparr>))))"
proof -
  have "due x \<le> fold max (map due (timers w)) (now w)"
    using fold_max_ge [of "timers w" due "now w"] assms(1) by simp
  from view_advance_snoc [OF assms this, of fire] show ?thesis
    unfolding settle_def by blast
qed




lemma eh_keeps_details: "keeps eh_fire eh_errorDetails c"
  by (cases c) (simp_all add: keeps_def eh_addLog_def Let_def)

lemma runRequest_fields:
  "timers (runRequest m sm w) = timers w @
     [\<lparr>tid = next_id w, due = now w + 400, callback = EH_step1\<rparr>,
      \<lparr>tid = Suc (next_id w), due = now w + 1000, callback = EH_step2\<rparr>]"
  "now (runRequest m sm w) = now w"
  "eh_status (view (runRequest m sm w)) = Loading"
  "eh_errorDetails (view (runRequest m sm w)) = None"
  "eh_mode (view (runRequest m sm w)) = sm"
  by (simp_all add: runRequest_def Let_def eh_reset_def eh_addLog_def)

lemma runRequest_catch_fields:
  "timers (runRequest_catch m e w) = timers w @
     [\<lparr>tid = next_id w, due = now w + 1800, callback = EH_caught e\<rparr>,
      \<lparr>tid = Suc (next_id w), due = now w + 2600, callback = EH_user e m\<rparr>]"
  "now (runRequest_catch m e w) = now w"
  "eh_errorDetails (view (runRequest_catch m e w)) =
     Some \<lparr>ed_name = err_name e, ed_message = err_message e, ed_type = getErrorType e m\<rparr>"
  "eh_logs (view (runRequest_catch m e w)) = eh_logs (view w)"
  by (simp_all add: runRequest_catch_def)



subsection \<open>Further facts about runs\<close>

lemma settle_after:
  assumes "x \<in> set (timers w)"
  shows "\<exists>t. due x \<le> t \<and> settle fire w = advance fire t w"
  using fold_max_ge [of "timers w" due "now w"] assms unfolding settle_def by blast

lemma fb_reset_initial: "fb_reset v = fb_initial"
  by (simp add: fb_reset_def fb_initial_def)

lemma fb_click_reset_quiet:
  "timers w = [] \<Longrightarrow>
   fb_click_reset w = (fresh fb_initial)\<lparr>now := now w, next_id := next_id w, uncaught := uncaught w\<rparr>"
  by (cases w) (simp add: fb_click_reset_def upd_view_def fb_reset_initial fresh_def)



subsection \<open>The animation of UseHook\<close>

lemma fold_clearTimeout:
  "timers (fold clearTimeout hs w) = filter (\<lambda>x. tid x \<notin> set hs) (timers w)"
  "view (fold clearTimeout hs w) = view w"
  "now (fold clearTimeout hs w) = now w"
  "next_id (fold clearTimeout hs w) = next_id w"
  by (induction hs arbitrary: w) (auto simp: clearTimeout_def intro: filter_cong)

lemma clear_all_tracked:
  assumes "tid ` set (timers w) \<subseteq> set (uh_timeoutsRef (view w))"
  shows "timers (clear_all w) = []"
  using assms by (auto simp: clear_all_def fold_clearTimeout filter_empty_conv)

lemma clear_all_fields [simp]:
  "view (clear_all w) = view w" "now (clear_all w) = now w" "next_id (clear_all w) = next_id w"
  by (simp_all add: clear_all_def fold_clearTimeout)

lemma schedule_tracked_fields:
  "timers (schedule_tracked cb d w) = timers w @ [\<lparr>tid = next_id w, due = now w + d, callback = cb\<rparr>]"
  "view (schedule_tracked cb d w) = (view w)\<lparr>uh_timeoutsRef := uh_timeoutsRef (view w) @ [next_id w]\<rparr>"
  "now (schedule_tracked cb d w) = now w"
  "next_id (schedule_tracked cb d w) = Suc (next_id w)"
  by (simp_all add: schedule_tracked_def setTimeout_def)

lemma delays_indexed:
  "zip delays [0 ..< length delays] = [(1200, 0), (2400, 1), (3600, 2), (4800, 3), (6000, 4)]"
  by (simp add: delays_def upt_rec)

lemma startAnimation_result:
  assumes "tid ` set (timers w) \<subseteq> set (uh_timeoutsRef (view w))"
  shows "timers (startAnimation p w) = animation_timers (now w) (next_id w)"
    and "view (startAnimation p w) =
           \<lparr>uh_animationStep = 1, uh_isAnimating = True, uh_selectedPath = p,
             uh_timeoutsRef = map tid (animation_timers (now w) (next_id w))\<rparr>"
    and "now (startAnimation p w) = now w"
  using clear_all_tracked [OF assms]
  by (simp_all add: startAnimation_def Let_def delays_indexed schedule_tracked_fields animation_timers_def)

lemma uh_keeps_ref: "keeps uh_fire uh_timeoutsRef c"
  by (cases c) (simp_all add: keeps_def)

lemma tracked_fresh: "tracked (fresh uh_initial)"
  by (simp add: tracked_def fresh_def)

lemma tracked_startAnimation: "tracked w \<Longrightarrow> tracked (startAnimation p w)"
  by (simp add: tracked_def startAnimation_result)

lemma tracked_advance: "tracked w \<Longrightarrow> tracked (advance uh_fire t w)"
  using advance_keeps [of w t uh_fire uh_timeoutsRef]
  by (auto simp: tracked_def uh_keeps_ref)

lemma tracked_step: "tracked w \<Longrightarrow> tracked (uh_step e w)"
  by (cases e) (simp_all add: uh_click_def tracked_startAnimation tracked_advance)

lemma tracked_trace: "tracked (uh_trace es)"
proof (induction es rule: rev_induct)
  case Nil
  show ?case by (simp add: uh_trace_def tracked_fresh)
next
  case (snoc e es)
  then show ?case by (simp add: uh_trace_def tracked_step)
qed

lemma timers_waits:
  "set (timers (fold (advance fire) ts w)) \<subseteq> set (timers w)"
proof (induction ts arbitrary: w)
  case Nil
  show ?case by simp
next
  case (Cons t ts)
  have "set (timers (fold (advance fire) ts (advance fire t w))) \<subseteq> set (timers (advance fire t w))"
    by (rule Cons.IH)
  also have "\<dots> \<subseteq> set (timers w)" by auto
  finally show ?case by simp
qed

lemma animation_step_by_time:
  assumes "tracked w"
  shows "uh_animationStep (view (advance uh_fire t (startAnimation p w))) =
           (if t < now w + 1200 then 1 else if t < now w + 2400 then 2
            else if t < now w + 3600 then 3 else if t < now w + 4800 then 4
            else if t < now w + 6000 then 5 else 6)"
proof -
  have tm: "timers (startAnimation p w) = animation_timers (now w) (next_id w)"
    and v: "uh_animationStep (view (startAnimation p w)) = 1"
    using assms by (simp_all add: tracked_def startAnimation_result)
  show ?thesis
    by (simp add: view_advance fire_due_def tm animation_timers_def view_run_timer run_timer_def Let_def v)
qed

subsection \<open>Classification on the error-handling page\<close>

lemma eh_details_advance [simp]:
  "eh_errorDetails (view (advance eh_fire t w)) = eh_errorDetails (view w)"
  by (rule advance_keeps) (simp add: eh_keeps_details)

lemma eh_details_settle [simp]:
  "eh_errorDetails (view (settle eh_fire w)) = eh_errorDetails (view w)"
  by (simp add: settle_def)

lemma getErrorType_scenario: "getErrorType e mode = classify_by_scenario mode"
  by (simp add: getErrorType_def classify_by_scenario_def)

lemma literal_rejected:
  "JSON_parse_rejects ''invalid json content'' = Some (SyntaxError ''Unexpected token i in JSON'')"
  by (simp add: JSON_parse_rejects_def)

lemma eh_run_details:
  assumes "eh_status (view w) \<noteq> Loading"
  shows "map_option ed_type (eh_errorDetails (view (eh_run net w)))
           \<in> {None, Some (classify_by_scenario (eh_mode (view w)))}"
  using assms
  by (auto simp: eh_run_def Let_def eh_click_run_def runRequest_response_def runRequest_body_def
        runRequest_catch_fields runRequest_fields eh_addLog_def getErrorType_scenario literal_rejected
        split: sum.splits)

lemma eh_parsing_end:
  assumes "timers w = []" and "eh_status (view w) \<noteq> Loading" and "eh_mode (view w) = ''parsing''"
    and "fetch_outcome net = Inr r" and "ok r" and "body_outcome net = Inr b"
  defines "err \<equiv> SyntaxError ''Unexpected token i in JSON''"
  defines "v \<equiv> view (settle eh_fire (eh_run net w))"
  shows "eh_status v = Error"
    and "eh_message v = getUserMessage err ''parsing''"
    and "eh_errorDetails v = Some \<lparr>ed_name = ''SyntaxError'', ed_message = ''Unexpected token i in JSON'',
                                   ed_type = ''Parsing Error''\<rparr>"
proof -
  define m where "m = ''parsing''"
  define W0 where "W0 = runRequest m m w"
  define W1 where "W1 = advance eh_fire (t_fetch net) W0"
  define W1' where "W1' = runRequest_response m m (Inr r) W1"
  define W2 where "W2 = advance eh_fire (t_body net) W1'"
  define W2a where "W2a = upd_view (eh_addLog ''Forcing invalid JSON parse...'' Log_warning (now W2)) W2"
  define W where "W = runRequest_catch m err W2a"
  have run: "eh_run net w = W"
    using assms(2-6)
    by (simp add: eh_run_def eh_click_run_def Let_def runRequest_body_def literal_rejected m_def
          W0_def W1_def W1'_def W2_def W2a_def W_def err_def)
  have n01: "now w \<le> now W1"
    unfolding W1_def using now_advance_ge [of W0 eh_fire] by (simp add: W0_def runRequest_fields)
  have t1: "\<forall>y\<in>set (timers W1). due y \<le> now W1 + 1000"
    using assms(1) n01 by (auto simp: W1_def W0_def runRequest_fields)
  have tm1': "timers W1' = timers W1 @ [\<lparr>tid = next_id W1, due = now W1 + 1800, callback = EH_step3\<rparr>]"
    and n1': "now W1' = now W1"
    using assms(5) by (simp_all add: W1'_def runRequest_response_def Let_def m_def)
  have n12: "now W1 \<le> now W2"
    unfolding W2_def using now_advance_ge [of W1' eh_fire] by (simp add: n1')
  have t2: "\<forall>y\<in>set (timers W2). due y \<le> now W2 + 1800"
    using t1 n12 by (auto simp: W2_def tm1')
  let ?c = "\<lparr>tid = next_id W2, due = now W2 + 1800, callback = EH_caught err\<rparr>"
  let ?u = "\<lparr>tid = Suc (next_id W2), due = now W2 + 2600, callback = EH_user err m\<rparr>"
  have tm: "timers W = (timers W2 @ [?c]) @ [?u]"
    by (simp add: W_def runRequest_catch_fields W2a_def)
  have le: "\<forall>y\<in>set (timers W2 @ [?c]). due y \<le> due ?u" using t2 by fastforce
  from settle_last [OF tm le, of eh_fire] obtain t' v' where
    "view (settle eh_fire W) = fst (eh_fire (EH_user err m) t' v')" by auto
  then show "eh_status v = Error" and "eh_message v = getUserMessage err ''parsing''"
    by (simp_all add: v_def run Let_def eh_addLog_def m_def)
  show "eh_errorDetails v = Some \<lparr>ed_name = ''SyntaxError'', ed_message = ''Unexpected token i in JSON'',
                                   ed_type = ''Parsing Error''\<rparr>"
    by (simp add: v_def run W_def runRequest_catch_fields err_def SyntaxError_def m_def getErrorType_def)
qed

lemma parsing_user_message:
  "getUserMessage (SyntaxError ''Unexpected token i in JSON'') ''parsing''
     = ''The server sent data in an unexpected format. Please contact support.''"
  by (simp add: getUserMessage_def SyntaxError_def Let_def startsWith_def)

subsection \<open>Runs answered by a response that is not ok\<close>


















section \<open>The properties of the specification\<close>

text \<open>C1. On every page that has a reset button, and from every prior state, \<open>reset()\<close>
  leaves the status idle, the step 0, the log list empty and the result (image address,
  response data, message, error details, response status, preview) cleared.\<close>

theorem reset_clears_every_page:
  "fb_status (view (fb_click_reset wb)) = Idle \<and> fb_step (view (fb_click_reset wb)) = 0
     \<and> fb_logs (view (fb_click_reset wb)) = [] \<and> fb_imageUrl (view (fb_click_reset wb)) = JNull
     \<and> fb_responseData (view (fb_click_reset wb)) = JNull
   \<and> eh_status (view (eh_click_reset we)) = Idle \<and> eh_step (view (eh_click_reset we)) = 0
     \<and> eh_logs (view (eh_click_reset we)) = [] \<and> eh_message (view (eh_click_reset we)) = []
     \<and> eh_errorDetails (view (eh_click_reset we)) = None
     \<and> eh_responseStatus (view (eh_click_reset we)) = None
   \<and> pa_status (view (pa_click_reset wp)) = Idle \<and> pa_step (view (pa_click_reset wp)) = 0
     \<and> pa_logs (view (pa_click_reset wp)) = [] \<and> pa_imageUrl (view (pa_click_reset wp)) = JNull
     \<and> pa_executionTime (view (pa_click_reset wp)) = None
   \<and> xl_status (view (xl_click_reset wx)) = Idle \<and> xl_step (view (xl_click_reset wx)) = 0
     \<and> xl_logs (view (xl_click_reset wx)) = [] \<and> xl_imageUrl (view (xl_click_reset wx)) = JNull
   \<and> rc_status (view (rc_click_reset wc)) = Idle \<and> rc_step (view (rc_click_reset wc)) = 0
     \<and> rc_logs (view (rc_click_reset wc)) = [] \<and> rc_responseStatus (view (rc_click_reset wc)) = None
   \<and> rp_status (view (rp_click_reset wr)) = Idle \<and> rp_step (view (rp_click_reset wr)) = 0
     \<and> rp_logs (view (rp_click_reset wr)) = [] \<and> rp_imageUrl (view (rp_click_reset wr)) = JNull
     \<and> rp_rawPreview (view (rp_click_reset wr)) = []"
  by (simp add: fb_click_reset_def fb_reset_def eh_click_reset_def eh_reset_def
        pa_click_reset_def pa_reset_def xl_click_reset_def xl_reset_def
        rc_click_reset_def rc_reset_def rp_click_reset_def rp_reset_def)

text \<open>C2. The specification asks that no narration callback scheduled before a reset changes the
  state afterwards. \<open>reset\<close> of FetchBasics leaves the timer queue as it is, and the
  handles of the timers were never kept. On a page just mounted: Run is clicked, Reset is
  clicked 100 ms later, and at 500 ms the first narration callback fires on the reset
  page, which then shows step 1 and one log line while idle. With Reset clicked after the
  body was read, the last callback later sets the status to success and stores the image
  address.\<close>

theorem reset_leaves_timers_running:
  "timers (fb_click_reset w) = timers w
   \<and> view (advance fb_fire 500 (fb_click_reset (advance fb_fire 100 (fb_click_run (fresh fb_initial)))))
       = \<lparr>fb_step = 1, fb_status = Idle, fb_imageUrl = JNull,
          fb_logs = [entry ''Browser sending HTTP request to API...'' Log_info 500],
          fb_responseData = JNull\<rparr>
   \<and> fb_status (view (settle fb_fire (fb_click_reset (advance fb_fire 400 (fb_run cat_net (fresh fb_initial))))))
       = Success
   \<and> fb_imageUrl (view (settle fb_fire (fb_click_reset (advance fb_fire 400 (fb_run cat_net (fresh fb_initial))))))
       = cat_url"
  by (simp add: fresh_def advance_def fire_due_def run_timer_def settle_def fb_initial_def
        fb_click_run_def fb_click_reset_def fb_run_def fb_defs first_url_def get_index_def get_prop_def
        ok_def cat_net_def cat_fields_def entry_def Let_def)

text \<open>C3. On every page with a run button, a click on it while the status is loading
  changes nothing at all (the button is disabled then): no timer is added, no log line, no
  second run. So a second click right after the first is lost.\<close>

theorem run_click_ignored_while_loading:
  "(fb_status (view wb) = Loading \<longrightarrow> fb_click_run wb = wb)
   \<and> (eh_status (view we) = Loading \<longrightarrow> eh_click_run we = we)
   \<and> (pa_status (view wp) = Loading \<longrightarrow> pa_click_run wp = wp)
   \<and> (xl_status (view wx) = Loading \<longrightarrow> xl_click_run wx = wx)
   \<and> (rc_status (view wc) = Loading \<longrightarrow> rc_click_run wc = wc)
   \<and> (rp_status (view wr) = Loading \<longrightarrow> rp_click_run wr = wr)
   \<and> fb_click_run (fb_click_run wb) = fb_click_run wb
   \<and> eh_click_run (eh_click_run we) = eh_click_run we
   \<and> pa_click_run (pa_click_run wp) = pa_click_run wp
   \<and> xl_click_run (xl_click_run wx) = xl_click_run wx
   \<and> rc_click_run (rc_click_run wc) = rc_click_run wc
   \<and> rp_click_run (rp_click_run wr) = rp_click_run wr"
proof -
  have "fb_status (view (runFetch wb)) = Loading" by (simp add: runFetch_view)
  moreover have "eh_status (view (runRequest m m we)) = Loading" for m
    by (simp add: runRequest_fields)
  moreover have "pa_status (view (runFlow m wp)) = Loading" for m by simp
  moreover have "xl_status (view (runXhrFlow m wx)) = Loading" for m by simp
  moreover have "rc_status (view (runConfiguredFetch m wc)) = Loading" for m
    by (simp add: runConfiguredFetch_def rc_addLog_def rc_reset_def)
  moreover have "rp_status (view (runParse m wr)) = Loading" for m
    by (simp add: runParse_def rp_addLog_def rp_reset_def)
  ultimately show ?thesis
    by (simp add: fb_click_run_def eh_click_run_def pa_click_run_def xl_click_run_def
          rc_click_run_def rp_click_run_def)
qed

theorem run_click_ignored_while_loading_witness:
  "fb_status (view (fb_click_run (fresh fb_initial))) = Loading
   \<and> eh_status (view (eh_click_run (fresh eh_initial))) = Loading
   \<and> pa_status (view (pa_click_run (fresh pa_initial))) = Loading
   \<and> xl_status (view (xl_click_run (fresh xl_initial))) = Loading
   \<and> rc_status (view (rc_click_run (fresh rc_initial))) = Loading
   \<and> rp_status (view (rp_click_run (fresh rp_initial))) = Loading
   \<and> fb_click_run (fb_click_run (fresh fb_initial)) = fb_click_run (fresh fb_initial)
   \<and> eh_click_run (eh_click_run (fresh eh_initial)) = eh_click_run (fresh eh_initial)
   \<and> pa_click_run (pa_click_run (fresh pa_initial)) = pa_click_run (fresh pa_initial)
   \<and> xl_click_run (xl_click_run (fresh xl_initial)) = xl_click_run (fresh xl_initial)
   \<and> rc_click_run (rc_click_run (fresh rc_initial)) = rc_click_run (fresh rc_initial)
   \<and> rp_click_run (rp_click_run (fresh rp_initial)) = rp_click_run (fresh rp_initial)"
  using run_click_ignored_while_loading
    [of "fb_click_run (fresh fb_initial)" "eh_click_run (fresh eh_initial)"
        "pa_click_run (fresh pa_initial)" "xl_click_run (fresh xl_initial)"
        "rc_click_run (fresh rc_initial)" "rp_click_run (fresh rp_initial)"]
  by (simp add: fb_click_run_def eh_click_run_def pa_click_run_def xl_click_run_def
        rc_click_run_def rp_click_run_def fresh_def fb_initial_def eh_initial_def pa_initial_def
        xl_initial_def rc_initial_def rp_initial_def runFetch_view runRequest_fields
        runConfiguredFetch_def rc_addLog_def rc_reset_def runParse_def rp_addLog_def rp_reset_def)

text \<open>C4. A run started by a click on a page with no timer pending, answered by a
  response that is \<open>ok\<close> (200 in particular) whose body is a list with a first element
  that has a \<open>url\<close> field, ends, once every timer has fired, with status success, the
  stored image address equal to that \<open>url\<close> value, and a log line of type success as the
  last one. This holds on the three pages that show the image.\<close>

theorem successful_run_ends_in_success:
  assumes "fetch_outcome net = Inr r" and "ok r"
    and "body_outcome net = Inr (JArr (JObj kvs # rest))" and "map_of kvs ''url'' = Some u"
    and "timers wb = []" and "fb_status (view wb) \<noteq> Loading"
    and "timers wp = []" and "pa_status (view wp) \<noteq> Loading"
    and "timers wx = []" and "xl_status (view wx) \<noteq> Loading"
  shows "fb_status (view (settle fb_fire (fb_run net wb))) = Success
       \<and> fb_imageUrl (view (settle fb_fire (fb_run net wb))) = u
       \<and> ltype (last (fb_logs (view (settle fb_fire (fb_run net wb))))) = Log_success
       \<and> pa_status (view (settle pa_fire (pa_run net wp))) = Success
       \<and> pa_imageUrl (view (settle pa_fire (pa_run net wp))) = u
       \<and> Log_success \<in> ltype ` set (pa_logs (view (settle pa_fire (pa_run net wp))))
       \<and> xl_status (view (settle xl_fire (xl_run net wx))) = Success
       \<and> xl_imageUrl (view (settle xl_fire (xl_run net wx))) = u
       \<and> ltype (last (xl_logs (view (settle xl_fire (xl_run net wx))))) = Log_success"
proof -
  let ?data = "JArr (JObj kvs # rest)"
  have url: "first_url ?data = Inr u" using assms(4) by (rule first_url_found)
  have fb: "fb_status (view (settle fb_fire (fb_run net wb))) = Success
       \<and> fb_imageUrl (view (settle fb_fire (fb_run net wb))) = u
       \<and> ltype (last (fb_logs (view (settle fb_fire (fb_run net wb))))) = Log_success"
  proof -
    from fb_run_shape(1) [OF assms(5,6,1,2,3)] obtain xs i j where
      "timers (fb_run net wb) = xs @ [\<lparr>tid = i, due = now (fb_run net wb) + 2400, callback = FB_step3\<rparr>,
         \<lparr>tid = j, due = now (fb_run net wb) + 3200, callback = FB_finish ?data\<rparr>]" by blast
    then have "\<lparr>tid = j, due = now (fb_run net wb) + 3200, callback = FB_finish ?data\<rparr>
         \<in> set (timers (fb_run net wb))" by simp
    from settle_after [OF this, of fb_fire] obtain t where
      t: "now (fb_run net wb) + 3200 \<le> t" "settle fb_fire (fb_run net wb) = advance fb_fire t (fb_run net wb)"
      by auto
    from fb_success_end(1) [OF assms(5,6,1,2,3) url t(1)] show ?thesis
      unfolding t(2) by (auto simp: fb_addLog_def entry_def)
  qed
  have pa: "pa_status (view (settle pa_fire (pa_run net wp))) = Success
       \<and> pa_imageUrl (view (settle pa_fire (pa_run net wp))) = u
       \<and> Log_success \<in> ltype ` set (pa_logs (view (settle pa_fire (pa_run net wp))))"
  proof -
    from pa_run_shape(1) [OF assms(7,8,1,2,3)] obtain xs j where
      "timers (pa_run net wp) = xs @ [\<lparr>tid = j, due = now (pa_run net wp) + 3200,
         callback = PA_finish ?data (now wp)\<rparr>]" by blast
    then have "\<lparr>tid = j, due = now (pa_run net wp) + 3200, callback = PA_finish ?data (now wp)\<rparr>
         \<in> set (timers (pa_run net wp))" by simp
    from settle_after [OF this, of pa_fire] obtain t where
      t: "now (pa_run net wp) + 3200 \<le> t" "settle pa_fire (pa_run net wp) = advance pa_fire t (pa_run net wp)"
      by auto
    from pa_success_end [OF assms(7,8,1,2,3) url t(1)] show ?thesis
      unfolding t(2) by (auto simp: pa_addLog_def entry_def)
  qed
  have xl: "xl_status (view (settle xl_fire (xl_run net wx))) = Success
       \<and> xl_imageUrl (view (settle xl_fire (xl_run net wx))) = u
       \<and> ltype (last (xl_logs (view (settle xl_fire (xl_run net wx))))) = Log_success"
  proof -
    from xl_run_shape(1) [OF assms(9,10,1,2,3)] obtain xs i j m where
      "timers (xl_run net wx) = xs @ [\<lparr>tid = i, due = now (xl_run net wx) + 2400, callback = XL_step3 m\<rparr>,
         \<lparr>tid = j, due = now (xl_run net wx) + 3200, callback = XL_finish ?data\<rparr>]" by blast
    then have "\<lparr>tid = j, due = now (xl_run net wx) + 3200, callback = XL_finish ?data\<rparr>
         \<in> set (timers (xl_run net wx))" by simp
    from settle_after [OF this, of xl_fire] obtain t where
      t: "now (xl_run net wx) + 3200 \<le> t" "settle xl_fire (xl_run net wx) = advance xl_fire t (xl_run net wx)"
      by auto
    from xl_success_end [OF assms(9,10,1,2,3) url t(1)] show ?thesis
      unfolding t(2) by (auto simp: xl_addLog_def entry_def)
  qed
  from fb pa xl show ?thesis by simp
qed

theorem successful_run_ends_in_success_witness:
  "ok \<lparr>resp_status = 200\<rparr> \<and> map_of cat_fields ''url'' = Some cat_url
   \<and> fb_status (view (settle fb_fire (fb_run cat_net (fresh fb_initial)))) = Success
   \<and> fb_imageUrl (view (settle fb_fire (fb_run cat_net (fresh fb_initial)))) = cat_url
   \<and> ltype (last (fb_logs (view (settle fb_fire (fb_run cat_net (fresh fb_initial)))))) = Log_success
   \<and> pa_status (view (settle pa_fire (pa_run cat_net (fresh pa_initial)))) = Success
   \<and> pa_imageUrl (view (settle pa_fire (pa_run cat_net (fresh pa_initial)))) = cat_url
   \<and> Log_success \<in> ltype ` set (pa_logs (view (settle pa_fire (pa_run cat_net (fresh pa_initial)))))
   \<and> xl_status (view (settle xl_fire (xl_run cat_net (fresh xl_initial)))) = Success
   \<and> xl_imageUrl (view (settle xl_fire (xl_run cat_net (fresh xl_initial)))) = cat_url
   \<and> ltype (last (xl_logs (view (settle xl_fire (xl_run cat_net (fresh xl_initial)))))) = Log_success"
proof -
  have h: "fetch_outcome cat_net = Inr \<lparr>resp_status = 200\<rparr>" "ok \<lparr>resp_status = 200\<rparr>"
    "body_outcome cat_net = Inr (JArr (JObj cat_fields # []))" "map_of cat_fields ''url'' = Some cat_url"
    by (simp_all add: cat_net_def ok_def cat_fields_def)
  have i: "timers (fresh fb_initial :: fb_world) = []" "fb_status (view (fresh fb_initial :: fb_world)) \<noteq> Loading"
    "timers (fresh pa_initial :: pa_world) = []" "pa_status (view (fresh pa_initial :: pa_world)) \<noteq> Loading"
    "timers (fresh xl_initial :: xl_world) = []" "xl_status (view (fresh xl_initial :: xl_world)) \<noteq> Loading"
    by (simp_all add: fresh_def fb_initial_def pa_initial_def xl_initial_def)
  from successful_run_ends_in_success [OF h i] h(2,4) show ?thesis by simp
qed




text \<open>C6. \<open>getErrorType\<close> ignores the error it is given: for every caught error the type is
  the one the selected scenario alone decides (parsing, network, http, otherwise unknown).
  In every run of the page, whatever the network does, error details that are set carry
  the type of the scenario selected when Run was clicked. And the parsing scenario, run
  with no timer pending against a response that is \<open>ok\<close> and a body that was read, ends with
  status error, classified as a parsing error and not as a network error.\<close>

theorem classification_follows_scenario:
  assumes "eh_status (view w) \<noteq> Loading"
  shows "getErrorType e mode = classify_by_scenario mode
       \<and> getErrorType e ''parsing'' = ''Parsing Error''
       \<and> getErrorType e ''network'' = ''Network Error''
       \<and> getErrorType e ''http'' = ''HTTP Error''
       \<and> (mode \<noteq> ''parsing'' \<and> mode \<noteq> ''network'' \<and> mode \<noteq> ''http''
            \<longrightarrow> getErrorType e mode = ''Unknown Error'')
       \<and> map_option ed_type (eh_errorDetails (view (settle eh_fire (eh_run net w))))
            \<in> {None, Some (classify_by_scenario (eh_mode (view w)))}
       \<and> (timers w = [] \<and> eh_mode (view w) = ''parsing'' \<and> fetch_outcome net = Inr r \<and> ok r
            \<and> body_outcome net = Inr b
            \<longrightarrow> eh_status (view (settle eh_fire (eh_run net w))) = Error
              \<and> map_option ed_type (eh_errorDetails (view (settle eh_fire (eh_run net w))))
                  = Some ''Parsing Error''
              \<and> map_option ed_type (eh_errorDetails (view (settle eh_fire (eh_run net w))))
                  \<noteq> Some ''Network Error''
              \<and> eh_message (view (settle eh_fire (eh_run net w)))
                  = ''The server sent data in an unexpected format. Please contact support.'')"
proof -
  have a: "getErrorType e mode = classify_by_scenario mode"
       "getErrorType e ''parsing'' = ''Parsing Error''"
       "getErrorType e ''network'' = ''Network Error''"
       "getErrorType e ''http'' = ''HTTP Error''"
       "mode \<noteq> ''parsing'' \<and> mode \<noteq> ''network'' \<and> mode \<noteq> ''http''
            \<longrightarrow> getErrorType e mode = ''Unknown Error''"
    by (simp_all add: getErrorType_def classify_by_scenario_def)
  have b: "map_option ed_type (eh_errorDetails (view (settle eh_fire (eh_run net w))))
            \<in> {None, Some (classify_by_scenario (eh_mode (view w)))}"
    using eh_run_details [OF assms, of net] by simp
  have c: "eh_status (view (settle eh_fire (eh_run net w))) = Error
              \<and> map_option ed_type (eh_errorDetails (view (settle eh_fire (eh_run net w))))
                  = Some ''Parsing Error''
              \<and> map_option ed_type (eh_errorDetails (view (settle eh_fire (eh_run net w))))
                  \<noteq> Some ''Network Error''
              \<and> eh_message (view (settle eh_fire (eh_run net w)))
                  = ''The server sent data in an unexpected format. Please contact support.''"
    if "timers w = []" "eh_mode (view w) = ''parsing''" "fetch_outcome net = Inr r" "ok r"
       "body_outcome net = Inr b"
    using eh_parsing_end [OF that(1) assms that(2-5)] by (simp add: parsing_user_message)
  from a b c show ?thesis by blast
qed

theorem classification_follows_scenario_witness:
  "eh_status (view (settle eh_fire (eh_run cat_net (eh_click_scenario ''parsing'' (fresh eh_initial))))) = Error
   \<and> map_option ed_type (eh_errorDetails
        (view (settle eh_fire (eh_run cat_net (eh_click_scenario ''parsing'' (fresh eh_initial))))))
       = Some ''Parsing Error''
   \<and> getErrorType (TypeError ''Failed to fetch'') ''parsing'' = ''Parsing Error''
   \<and> getErrorType (TypeError ''Failed to fetch'') ''success'' = ''Unknown Error''"
proof -
  let ?w = "eh_click_scenario ''parsing'' (fresh eh_initial) :: eh_world"
  have h: "eh_status (view ?w) \<noteq> Loading" "timers ?w = []" "eh_mode (view ?w) = ''parsing''"
    by (simp_all add: eh_click_scenario_def fresh_def eh_initial_def)
  have n: "fetch_outcome cat_net = Inr \<lparr>resp_status = 200\<rparr>" "ok \<lparr>resp_status = 200\<rparr>"
    "body_outcome cat_net = Inr (JArr [JObj cat_fields])"
    by (simp_all add: cat_net_def ok_def)
  from classification_follows_scenario [OF h(1), of "TypeError ''Failed to fetch''" "''parsing''" cat_net
      "\<lparr>resp_status = 200\<rparr>" "JArr [JObj cat_fields]"]
    classification_follows_scenario [OF h(1), of "TypeError ''Failed to fetch''" "''success''" cat_net
      "\<lparr>resp_status = 200\<rparr>" "JArr [JObj cat_fields]"]
    h n
  show ?thesis by (simp add: classify_by_scenario_def)
qed

text \<open>C7. The specification asks that no run throws outward and that every failure ends in status
  error with a log line. Each of the three image pages reads \<open>data[0].url\<close> inside the last
  \<open>setTimeout\<close> callback, which runs after the \<open>try\<close> block has been left. With a 200
  response whose body is the empty list the callback throws a \<open>TypeError\<close> that nothing
  catches; the status stays loading for good, so the run button stays disabled, and no
  log line of type error is written.\<close>

theorem empty_list_throws_uncaught:
  "uncaught (settle fb_fire (fb_run empty_net (fresh fb_initial)))
     = [TypeError ''Cannot read properties of undefined'']
   \<and> fb_status (view (settle fb_fire (fb_run empty_net (fresh fb_initial)))) = Loading
   \<and> map ltype (fb_logs (view (settle fb_fire (fb_run empty_net (fresh fb_initial)))))
     = [Log_info, Log_success, Log_success, Log_info, Log_info, Log_info]
   \<and> uncaught (settle xl_fire (xl_run empty_net (fresh xl_initial)))
     = [TypeError ''Cannot read properties of undefined'']
   \<and> xl_status (view (settle xl_fire (xl_run empty_net (fresh xl_initial)))) = Loading
   \<and> map ltype (xl_logs (view (settle xl_fire (xl_run empty_net (fresh xl_initial)))))
     = [Log_info, Log_success, Log_success, Log_info, Log_info, Log_info]
   \<and> uncaught (settle pa_fire (pa_run empty_net (fresh pa_initial)))
     = [TypeError ''Cannot read properties of undefined'']
   \<and> pa_status (view (settle pa_fire (pa_run empty_net (fresh pa_initial)))) = Loading
   \<and> map ltype (pa_logs (view (settle pa_fire (pa_run empty_net (fresh pa_initial)))))
     = [Log_info, Log_success, Log_success, Log_info, Log_info, Log_info]"
proof -
  note loop = fresh_def advance_def fire_due_def run_timer_def settle_def upd_view_def
    setTimeout_nohandle_def setTimeout_def Let_def empty_net_def cat_net_def ok_def
    first_url_def get_index_def get_prop_def
  have fb: "uncaught (settle fb_fire (fb_run empty_net (fresh fb_initial)))
     = [TypeError ''Cannot read properties of undefined'']
   \<and> fb_status (view (settle fb_fire (fb_run empty_net (fresh fb_initial)))) = Loading
   \<and> map ltype (fb_logs (view (settle fb_fire (fb_run empty_net (fresh fb_initial)))))
     = [Log_info, Log_success, Log_success, Log_info, Log_info, Log_info]"
    by (simp add: loop fb_initial_def fb_click_run_def fb_run_def runFetch_def runFetch_response_def
          runFetch_json_def fb_reset_def fb_addLog_def entry_def)
  have xl: "uncaught (settle xl_fire (xl_run empty_net (fresh xl_initial)))
     = [TypeError ''Cannot read properties of undefined'']
   \<and> xl_status (view (settle xl_fire (xl_run empty_net (fresh xl_initial)))) = Loading
   \<and> map ltype (xl_logs (view (settle xl_fire (xl_run empty_net (fresh xl_initial)))))
     = [Log_info, Log_success, Log_success, Log_info, Log_info, Log_info]"
    by (simp add: loop xl_initial_def xl_click_run_def xl_run_def runXhrFlow_def runXhrFlow_response_def
          runXhrFlow_json_def xl_reset_def xl_addLog_def entry_def)
  have pa: "uncaught (settle pa_fire (pa_run empty_net (fresh pa_initial)))
     = [TypeError ''Cannot read properties of undefined'']
   \<and> pa_status (view (settle pa_fire (pa_run empty_net (fresh pa_initial)))) = Loading
   \<and> map ltype (pa_logs (view (settle pa_fire (pa_run empty_net (fresh pa_initial)))))
     = [Log_info, Log_success, Log_success, Log_info, Log_info, Log_info]"
    by (simp add: loop pa_initial_def pa_click_run_def pa_run_def runFlow_def runFlow_response_def
          runFlow_json_def pa_reset_def pa_addLog_def entry_def)
  from fb xl pa show ?thesis by simp
qed



text \<open>C9. A first successful run on a page with no timer pending has, from 3200 ms after
  its body promise resolved, status success, the image address stored and no timer left.
  A reset then puts the page in the state of a page just mounted (but for the clock, the
  handle counter and the error console), so the run clicked next starts with status
  loading, no image address, the log holding only the second run's start line, and only
  its own two timers pending; and during the whole loading time of that second run,
  whatever ok answer the network gives, the status is loading and no image address is
  stored.\<close>

theorem second_run_starts_clean:
  assumes "fetch_outcome net = Inr r" and "ok r"
    and "body_outcome net = Inr (JArr (JObj kvs # rest))" and "map_of kvs ''url'' = Some u"
    and "timers wb = []" and "fb_status (view wb) \<noteq> Loading"
    and "now (fb_run net wb) + 3200 \<le> t"
    and "fetch_outcome net2 = Inr r2" and "ok r2" and "body_outcome net2 = Inr data2"
  defines "w1 \<equiv> advance fb_fire t (fb_run net wb)"
  shows "fb_status (view w1) = Success \<and> fb_imageUrl (view w1) = u \<and> timers w1 = []
       \<and> fb_click_reset w1
            = (fresh fb_initial)\<lparr>now := now w1, next_id := next_id w1, uncaught := uncaught w1\<rparr>
       \<and> view (fb_click_run (fb_click_reset w1))
            = \<lparr>fb_step = 0, fb_status = Loading, fb_imageUrl = JNull,
               fb_logs = [entry ''Starting fetch request...'' Log_info (now w1)],
               fb_responseData = JNull\<rparr>
       \<and> timers (fb_click_run (fb_click_reset w1))
            = [\<lparr>tid = next_id w1, due = now w1 + 500, callback = FB_step1\<rparr>,
               \<lparr>tid = Suc (next_id w1), due = now w1 + 1400, callback = FB_step2\<rparr>]
       \<and> (\<forall>t'. t' < now (fb_run net2 (fb_click_reset w1)) + 3200 \<longrightarrow>
              fb_status (view (advance fb_fire t' (fb_run net2 (fb_click_reset w1)))) = Loading
              \<and> fb_imageUrl (view (advance fb_fire t' (fb_run net2 (fb_click_reset w1)))) = JNull)"
proof -
  have url: "first_url (JArr (JObj kvs # rest)) = Inr u" using assms(4) by (rule first_url_found)
  note first = assms(5,6,1,2,3)
  have a: "fb_status (view w1) = Success \<and> fb_imageUrl (view w1) = u"
    unfolding w1_def using fb_success_end(1) [OF first url assms(7)] by (auto simp: fb_addLog_def)
  have b: "timers w1 = []"
    unfolding w1_def by (rule fb_success_end(2) [OF first url assms(7)])
  have c: "fb_click_reset w1
            = (fresh fb_initial)\<lparr>now := now w1, next_id := next_id w1, uncaught := uncaught w1\<rparr>"
    using b by (rule fb_click_reset_quiet)
  have q: "timers (fb_click_reset w1) = []" "fb_status (view (fb_click_reset w1)) \<noteq> Loading"
    "now (fb_click_reset w1) = now w1" "next_id (fb_click_reset w1) = next_id w1"
    using b by (simp_all add: fb_click_reset_def fb_reset_def)
  have d: "view (fb_click_run (fb_click_reset w1))
            = \<lparr>fb_step = 0, fb_status = Loading, fb_imageUrl = JNull,
               fb_logs = [entry ''Starting fetch request...'' Log_info (now w1)],
               fb_responseData = JNull\<rparr>"
    using q by (simp add: fb_click_run_def runFetch_view)
  have e: "timers (fb_click_run (fb_click_reset w1))
            = [\<lparr>tid = next_id w1, due = now w1 + 500, callback = FB_step1\<rparr>,
               \<lparr>tid = Suc (next_id w1), due = now w1 + 1400, callback = FB_step2\<rparr>]"
    using q by (simp add: fb_click_run_def runFetch_timers)
  have f: "fb_status (view (advance fb_fire t' (fb_run net2 (fb_click_reset w1)))) = Loading
              \<and> fb_imageUrl (view (advance fb_fire t' (fb_run net2 (fb_click_reset w1)))) = JNull"
    if "t' < now (fb_run net2 (fb_click_reset w1)) + 3200" for t'
    using fb_loading_before_end [OF q(1,2) assms(8,9,10) that] by (simp add: fb_shown_def)
  from a b c d e f show ?thesis by blast
qed

theorem second_run_starts_clean_witness:
  "fb_status (view (advance fb_fire 3520 (fb_run cat_net (fresh fb_initial)))) = Success
   \<and> fb_imageUrl (view (advance fb_fire 3520 (fb_run cat_net (fresh fb_initial)))) = cat_url
   \<and> view (fb_click_run (fb_click_reset (advance fb_fire 3520 (fb_run cat_net (fresh fb_initial)))))
        = \<lparr>fb_step = 0, fb_status = Loading, fb_imageUrl = JNull,
           fb_logs = [entry ''Starting fetch request...'' Log_info 3520], fb_responseData = JNull\<rparr>
   \<and> fb_imageUrl (view (advance fb_fire 6719
        (fb_run cat_net (fb_click_reset (advance fb_fire 3520 (fb_run cat_net (fresh fb_initial))))))) = JNull"
proof -
  have h: "fetch_outcome cat_net = Inr \<lparr>resp_status = 200\<rparr>" "ok \<lparr>resp_status = 200\<rparr>"
    "body_outcome cat_net = Inr (JArr (JObj cat_fields # []))" "map_of cat_fields ''url'' = Some cat_url"
    by (simp_all add: cat_net_def ok_def cat_fields_def)
  have i: "timers (fresh fb_initial :: fb_world) = []" "fb_status (view (fresh fb_initial :: fb_world)) \<noteq> Loading"
    by (simp_all add: fresh_def fb_initial_def)
  have n: "now (fb_run cat_net w) = max (max (now w) 300) 320" for w
    using fb_run_now [OF h(1,2,3), of w] by (simp add: cat_net_def)
  have t: "now (fb_run cat_net (fresh fb_initial)) + 3200 \<le> 3520"
    by (simp add: n fresh_def)
  note th = second_run_starts_clean [OF h i t h(1,2,3)]
  have m: "now (advance fb_fire 3520 (fb_run cat_net (fresh fb_initial))) = 3520"
    by (simp add: now_advance n fresh_def)
  have m2: "now (fb_run cat_net (fb_click_reset (advance fb_fire 3520 (fb_run cat_net (fresh fb_initial))))) = 3520"
    by (simp add: n fb_click_reset_def m)
  have "\<forall>t'. t' < now (fb_run cat_net (fb_click_reset (advance fb_fire 3520 (fb_run cat_net (fresh fb_initial))))) + 3200 \<longrightarrow>
      fb_imageUrl (view (advance fb_fire t'
        (fb_run cat_net (fb_click_reset (advance fb_fire 3520 (fb_run cat_net (fresh fb_initial))))))) = JNull"
    using th by blast
  from this [rule_format, of 6719]
  have l: "fb_imageUrl (view (advance fb_fire 6719
        (fb_run cat_net (fb_click_reset (advance fb_fire 3520 (fb_run cat_net (fresh fb_initial))))))) = JNull"
    by (simp add: m2)
  have "fb_status (view (advance fb_fire 3520 (fb_run cat_net (fresh fb_initial)))) = Success
   \<and> fb_imageUrl (view (advance fb_fire 3520 (fb_run cat_net (fresh fb_initial)))) = cat_url
   \<and> view (fb_click_run (fb_click_reset (advance fb_fire 3520 (fb_run cat_net (fresh fb_initial)))))
        = \<lparr>fb_step = 0, fb_status = Loading, fb_imageUrl = JNull,
           fb_logs = [entry ''Starting fetch request...'' Log_info
                        (now (advance fb_fire 3520 (fb_run cat_net (fresh fb_initial))))],
           fb_responseData = JNull\<rparr>"
    using th by blast
  with l m show ?thesis by simp
qed

text \<open>C10. In every state the page can reach by clicks on its two buttons, direct calls
  of \<open>startAnimation\<close> and the passing of time, the handle of every pending timer is held
  in \<open>timeoutsRef\<close>. So a call of \<open>startAnimation\<close> clears every timer of earlier calls
  and leaves exactly its own six pending; as time passes the pending timers remain among
  these six; the animation step at any later time is the one the call's own delays give;
  and unmounting the page leaves no timer pending.\<close>

theorem animation_timers_belong_to_latest_call:
  "tracked (uh_trace es)
   \<and> timers (startAnimation p (uh_trace es))
        = animation_timers (now (uh_trace es)) (next_id (uh_trace es))
   \<and> set (timers (fold (advance uh_fire) ts (startAnimation p (uh_trace es))))
        \<subseteq> set (animation_timers (now (uh_trace es)) (next_id (uh_trace es)))
   \<and> uh_animationStep (view (advance uh_fire t (startAnimation p (uh_trace es)))) =
        (if t < now (uh_trace es) + 1200 then 1 else if t < now (uh_trace es) + 2400 then 2
         else if t < now (uh_trace es) + 3600 then 3 else if t < now (uh_trace es) + 4800 then 4
         else if t < now (uh_trace es) + 6000 then 5 else 6)
   \<and> timers (uh_unmount (uh_trace es)) = []"
proof -
  note tr = tracked_trace [of es]
  have a: "timers (startAnimation p (uh_trace es))
        = animation_timers (now (uh_trace es)) (next_id (uh_trace es))"
    using tr by (simp add: tracked_def startAnimation_result)
  have b: "set (timers (fold (advance uh_fire) ts (startAnimation p (uh_trace es))))
        \<subseteq> set (animation_timers (now (uh_trace es)) (next_id (uh_trace es)))"
    using timers_waits [of uh_fire ts "startAnimation p (uh_trace es)"] by (simp add: a)
  have c: "timers (uh_unmount (uh_trace es)) = []"
    using tr by (simp add: uh_unmount_def tracked_def clear_all_tracked)
  from tr a b c animation_step_by_time [OF tr] show ?thesis by simp
qed

end
